theory Spec2Isabelle
  imports Main "HOL-Library.Word" "HOL-Library.Char_ord" "HOL-Library.List_Lexorder"
    "HOL-Library.Product_Lexorder" "HOL-Library.Multiset"
begin

unbundle bit_operations_syntax

section \<open>Common data\<close>

text \<open>
  Go strings are byte sequences; \<^typ>\<open>string\<close> is a list of 8-bit characters, so
  \<^const>\<open>length\<close> is Go's \<open>len\<close> and \<open><\<close> on strings (the lexicographic order of
  the bytes) is Go's string comparison.

  Messages built by \<open>fmt.Errorf\<close>/\<open>fmt.Sprintf\<close> are kept symbolically, as the format
  string with its arguments, so that no property depends on a model of Go's formatting
  verbs.
\<close>

datatype msg = Sprintf string "arg list"
  and arg = ArgD int | ArgQ string | ArgS string | ArgM msg | ArgV "string list"

text \<open>The error kinds of package \<open>berrors\<close> that the modelled functions construct.\<close>

datatype ErrorType = InternalServer | Malformed | RejectedIdentifier

text \<open>\<open>identifier.ACMEIdentifier\<close>: the identifier type is a Go string type.\<close>

record ACMEIdentifier =
  Type :: string
  Value :: string

definition TypeDNS :: string where "TypeDNS = ''dns''"
definition TypeIP :: string where "TypeIP = ''ip''"

text \<open>
  \<open>berrors.BoulderError\<close> with its sub-errors (\<open>berrors.SubBoulderError\<close> pairs an
  identifier with a \<open>BoulderError\<close>), and Go's \<open>error\<close> interface as far as the modelled
  code inhabits it: a \<open>BoulderError\<close> or a plain error made by \<open>fmt.Errorf\<close>.
\<close>

datatype BoulderError =
  BoulderError (etype: ErrorType) (detail: msg) (subErrors: "(ACMEIdentifier \<times> BoulderError) list")

datatype error = Berr BoulderError | Errorf string "arg list"

definition InternalServerError :: "string \<Rightarrow> arg list \<Rightarrow> error" where
  "InternalServerError f args = Berr (BoulderError InternalServer (Sprintf f args) [])"

definition MalformedError :: "string \<Rightarrow> arg list \<Rightarrow> BoulderError" where
  "MalformedError f args = BoulderError Malformed (Sprintf f args) []"

definition RejectedIdentifierError :: "string \<Rightarrow> arg list \<Rightarrow> BoulderError" where
  "RejectedIdentifierError f args = BoulderError RejectedIdentifier (Sprintf f args) []"

text \<open>
  \<open>time.Time\<close> as an instant, in nanoseconds since the Unix epoch; \<open>t.Before(u)\<close> is
  \<open>t < u\<close>.
\<close>

type_synonym time = int

definition Before :: "time \<Rightarrow> time \<Rightarrow> bool" where
  "Before t u = (t < u)"

text \<open>
  \<open>(*timestamppb.Timestamp).AsTime\<close>: a nil timestamp reads as seconds 0, nanos 0, the
  epoch.
\<close>

definition AsTime :: "time option \<Rightarrow> time" where
  "AsTime ts = (case ts of None \<Rightarrow> 0 | Some t \<Rightarrow> t)"

text \<open>The ACME status strings of package \<open>core\<close>.\<close>

definition StatusPending :: string where "StatusPending = ''pending''"
definition StatusValid :: string where "StatusValid = ''valid''"
definition StatusInvalid :: string where "StatusInvalid = ''invalid''"
definition StatusDeactivated :: string where "StatusDeactivated = ''deactivated''"
definition StatusRevoked :: string where "StatusRevoked = ''revoked''"
definition StatusProcessing :: string where "StatusProcessing = ''processing''"
definition StatusReady :: string where "StatusReady = ''ready''"

lemmas Status_defs = StatusPending_def StatusValid_def StatusInvalid_def
  StatusDeactivated_def StatusRevoked_def StatusProcessing_def StatusReady_def

text \<open>The ACME challenge type strings of package \<open>core\<close>.\<close>

definition ChallengeTypeHTTP01 :: string where "ChallengeTypeHTTP01 = ''http-01''"
definition ChallengeTypeDNS01 :: string where "ChallengeTypeDNS01 = ''dns-01''"
definition ChallengeTypeTLSALPN01 :: string where "ChallengeTypeTLSALPN01 = ''tls-alpn-01''"

lemmas ChallengeType_defs = ChallengeTypeHTTP01_def ChallengeTypeDNS01_def
  ChallengeTypeTLSALPN01_def


section \<open>Go strings\<close>

text \<open>\<open>strings.HasPrefix\<close>, \<open>strings.HasSuffix\<close> and \<open>strings.TrimPrefix\<close>.\<close>

definition HasPrefix :: "string \<Rightarrow> string \<Rightarrow> bool" where
  "HasPrefix s p = (length p \<le> length s \<and> take (length p) s = p)"

definition HasSuffix :: "string \<Rightarrow> string \<Rightarrow> bool" where
  "HasSuffix s p = (length p \<le> length s \<and> drop (length s - length p) s = p)"

definition TrimPrefix :: "string \<Rightarrow> string \<Rightarrow> string" where
  "TrimPrefix s p = (if HasPrefix s p then drop (length p) s else s)"


text \<open>
  \<open>strings.Count(s, sep)\<close>, \<open>strings.Split(s, sep)\<close>, \<open>strings.SplitN(s, sep, 2)\<close> and
  \<open>strings.Join(xs, sep)\<close> for a separator of one byte, the only use the modelled code
  makes of them. \<open>Split\<close> never returns the empty list: \<open>Split "" "."\<close> is \<open>[""]\<close>.
\<close>

definition Count :: "string \<Rightarrow> char \<Rightarrow> nat" where
  "Count s sep = length (filter (\<lambda>c. c = sep) s)"

fun Split :: "string \<Rightarrow> char \<Rightarrow> string list" where
  "Split [] sep = [[]]"
| "Split (c # cs) sep =
     (if c = sep then [] # Split cs sep
      else (c # hd (Split cs sep)) # tl (Split cs sep))"

definition SplitN2 :: "string \<Rightarrow> char \<Rightarrow> string list" where
  "SplitN2 s sep =
     (if sep \<in> set s
      then [takeWhile (\<lambda>c. c \<noteq> sep) s, tl (dropWhile (\<lambda>c. c \<noteq> sep) s)]
      else [s])"

fun Join :: "string list \<Rightarrow> char \<Rightarrow> string" where
  "Join [] sep = []"
| "Join [x] sep = x"
| "Join (x # y # ys) sep = x @ sep # Join (y # ys) sep"

text \<open>
  A Go \<open>map[string]bool\<close>, which may be nil: reading a missing key, or any key of a nil
  map, gives \<open>false\<close>.
\<close>

type_synonym boolmap = "(string \<rightharpoonup> bool) option"

definition lookup :: "boolmap \<Rightarrow> string \<Rightarrow> bool" where
  "lookup m k = (case m of None \<Rightarrow> False | Some f \<Rightarrow> (case f k of None \<Rightarrow> False | Some b \<Rightarrow> b))"


section \<open>Storage model: the status of an order (sa/model.go)\<close>

text \<open>\<open>uintToStatus\<close>: a Go map; a missing key reads as the empty string.\<close>

definition uintToStatus :: "8 word \<Rightarrow> string" where
  "uintToStatus s =
     (if s = 0 then StatusPending
      else if s = 1 then StatusValid
      else if s = 2 then StatusInvalid
      else if s = 3 then StatusDeactivated
      else if s = 4 then StatusRevoked
      else [])"

text \<open>\<open>authzValidity\<close>, a subset of the columns of an authorization row.\<close>

record authzValidity =
  avIdentifierType :: "8 word"
  avIdentifierValue :: string
  avStatus :: "8 word"
  avExpires :: time

text \<open>\<open>corepb.ProblemDetails\<close> and the fields of \<open>corepb.Order\<close>.\<close>

record ProblemDetails =
  ProblemType :: string
  ProblemDetail :: string
  HttpStatus :: int

record Order =
  Id :: int
  RegistrationID :: int
  Expires :: "time option"
  Error :: "ProblemDetails option"
  CertificateSerial :: string
  Identifiers :: "ACMEIdentifier list"
  BeganProcessing :: bool
  V2Authorizations :: "int list"

text \<open>The four counters the loop of \<open>statusForOrder\<close> keeps.\<close>

record authzCounts =
  pendingAuthzs :: int
  validAuthzs :: int
  otherAuthzs :: int
  expiredAuthzs :: int

text \<open>One iteration of the loop: the switch on the status, then the expiry test.\<close>

definition countAuthz :: "time \<Rightarrow> authzValidity \<Rightarrow> authzCounts \<Rightarrow> error + authzCounts" where
  "countAuthz now info c =
     (let st = uintToStatus (avStatus info);
          switched =
            (if st = StatusPending then Inr (c\<lparr>pendingAuthzs := pendingAuthzs c + 1\<rparr>)
             else if st = StatusValid then Inr (c\<lparr>validAuthzs := validAuthzs c + 1\<rparr>)
             else if st = StatusInvalid then Inr (c\<lparr>otherAuthzs := otherAuthzs c + 1\<rparr>)
             else if st = StatusDeactivated then Inr (c\<lparr>otherAuthzs := otherAuthzs c + 1\<rparr>)
             else if st = StatusRevoked then Inr (c\<lparr>otherAuthzs := otherAuthzs c + 1\<rparr>)
             else Inl (InternalServerError
                    ''Order is in an invalid state. Authz has invalid status %d''
                    [ArgD (uint (avStatus info))]))
      in case switched of
           Inl e \<Rightarrow> Inl e
         | Inr c' \<Rightarrow>
             if Before (avExpires info) now
             then Inr (c'\<lparr>expiredAuthzs := expiredAuthzs c' + 1\<rparr>)
             else Inr c')"

fun countAuthzs :: "time \<Rightarrow> authzValidity list \<Rightarrow> authzCounts \<Rightarrow> error + authzCounts" where
  "countAuthzs now [] c = Inr c"
| "countAuthzs now (info # rest) c =
     (case countAuthz now info c of
        Inl e \<Rightarrow> Inl e
      | Inr c' \<Rightarrow> countAuthzs now rest c')"

definition statusForOrder :: "Order \<Rightarrow> authzValidity list \<Rightarrow> time \<Rightarrow> error + string" where
  "statusForOrder order authzValidityInfo now =
     (if Error order \<noteq> None then Inr StatusInvalid
      else if Before (AsTime (Expires order)) now then Inr StatusInvalid
      else if length authzValidityInfo \<noteq> length (V2Authorizations order) then
        Inl (InternalServerError
          (''getAuthorizationStatuses returned the wrong number of authorization statuses '' @
           ''(%d vs expected %d) for order %d'')
          [ArgD (int (length authzValidityInfo)), ArgD (int (length (V2Authorizations order))),
           ArgD (Id order)])
      else
        case countAuthzs now authzValidityInfo
               \<lparr>pendingAuthzs = 0, validAuthzs = 0, otherAuthzs = 0, expiredAuthzs = 0\<rparr> of
          Inl e \<Rightarrow> Inl e
        | Inr c \<Rightarrow>
            if otherAuthzs c > 0 \<or> expiredAuthzs c > 0 then Inr StatusInvalid
            else if pendingAuthzs c > 0 then Inr StatusPending
            else
              let fullyAuthorized = (int (length (Identifiers order)) = validAuthzs c) in
              if \<not> fullyAuthorized then
                Inl (InternalServerError
                  (''Order has the incorrect number of valid authorizations & no pending, '' @
                   ''deactivated or invalid authorizations'') [])
              else if fullyAuthorized \<and> CertificateSerial order \<noteq> [] then Inr StatusValid
              else if fullyAuthorized \<and> BeganProcessing order then Inr StatusProcessing
              else if fullyAuthorized \<and> \<not> BeganProcessing order then Inr StatusReady
              else
                Inl (InternalServerError
                  (''Order %d is in an invalid state. No state known for this order's '' @
                   ''authorizations'') [ArgD (Id order)]))"


section \<open>Storage model: authorizations (sa/model.go)\<close>

text \<open>
  \<open>strconv.FormatInt(i, 10)\<close>, which is also \<open>fmt.Sprintf("%d", i)\<close>; \<open>FormatUint\<close>
  writes the digits of a number that is not negative.
\<close>

function FormatUint :: "int \<Rightarrow> string" where
  "FormatUint n =
     (if n < 10 then [char_of (48 + n)]
      else FormatUint (n div 10) @ [char_of (48 + n mod 10)])"
  by pat_completeness auto
termination
  by (relation "measure nat") auto

declare FormatUint.simps [simp del]

definition FormatInt :: "int \<Rightarrow> string" where
  "FormatInt i = (if i < 0 then CHR ''-'' # FormatUint (- i) else FormatUint i)"

text \<open>
  \<open>uintToChallType\<close> and \<open>uintToIdentifierType\<close>: Go maps; the first is read without the
  \<open>ok\<close> flag, so a missing key reads as the empty string.
\<close>

definition uintToChallType :: "8 word \<Rightarrow> string" where
  "uintToChallType k =
     (if k = 0 then ''http-01''
      else if k = 1 then ''dns-01''
      else if k = 2 then ''tls-alpn-01''
      else if k = 3 then ''dns-account-01''
      else [])"

definition uintToIdentifierType :: "8 word \<Rightarrow> string option" where
  "uintToIdentifierType k =
     (if k = 0 then Some ''dns'' else if k = 1 then Some ''ip'' else None)"

text \<open>\<open>authzModel\<close>, one row of the authorization table.\<close>

record authzModel =
  amID :: int
  amIdentifierType :: "8 word"
  amIdentifierValue :: string
  amRegistrationID :: int
  amCertificateProfileName :: "string option"
  amStatus :: "8 word"
  amExpires :: time
  amChallenges :: "8 word"
  amAttempted :: "8 word option"
  amAttemptedAt :: "time option"
  amToken :: string
  amValidationError :: string
  amValidationRecord :: string

text \<open>
  \<open>core.ValidationRecord\<close> (and its protobuf form), \<open>corepb.Challenge\<close> and
  \<open>corepb.Authorization\<close>.
\<close>

record ValidationRecord =
  vrURL :: string
  vrHostname :: string
  vrPort :: string
  vrAddressesResolved :: "string list"
  vrAddressUsed :: string
  vrResolverAddrs :: "string list"

record Challenge =
  chType :: string
  chStatus :: string
  chToken :: string
  chError :: "ProblemDetails option"
  chValidationrecords :: "ValidationRecord list"
  chValidated :: "time option"

record Authorization =
  azId :: string
  azRegistrationID :: int
  azIdentifier :: ACMEIdentifier
  azStatus :: string
  azExpires :: "time option"
  azChallenges :: "Challenge list"
  azCertificateProfileName :: string

text \<open>\<open>url.URL\<close> as far as \<open>rehydrateHostPort\<close> reads it.\<close>

record URL =
  urlScheme :: string
  urlHostname :: string
  urlPort :: string

text \<open>
  The functions of other packages that the conversion calls, taken as parameters:
  \<open>json.Unmarshal\<close> into a \<open>probs.ProblemDetails\<close> and into a list of validation records,
  \<open>grpc.ProblemDetailsToPB\<close>, \<open>grpc.ValidationRecordToPB\<close>, \<open>url.Parse\<close> and
  \<open>base64.RawURLEncoding.EncodeToString\<close>.
\<close>

record salib =
  UnmarshalProblem :: "string \<Rightarrow> error + ProblemDetails"
  ProblemDetailsToPB :: "ProblemDetails \<Rightarrow> error + ProblemDetails option"
  UnmarshalRecords :: "string \<Rightarrow> error + ValidationRecord list"
  ValidationRecordToPB :: "ValidationRecord \<Rightarrow> error + ValidationRecord"
  ParseURL :: "string \<Rightarrow> error + URL"
  EncodeToString :: "string \<Rightarrow> string"

text \<open>The message of an error (its \<open>Error\<close> method).\<close>

definition errorMsg :: "error \<Rightarrow> msg" where
  "errorMsg err = (case err of Berr b \<Rightarrow> detail b | Errorf f args \<Rightarrow> Sprintf f args)"

text \<open>\<open>badJSONError\<close>, an error known by its message.\<close>

definition badJSONError :: "string \<Rightarrow> string \<Rightarrow> error \<Rightarrow> error" where
  "badJSONError m jsonData err =
     Errorf ''%s: error unmarshaling JSON %q: %s'' [ArgS m, ArgQ jsonData, ArgM (errorMsg err)]"

text \<open>\<open>rehydrateHostPort\<close> returns the record as it leaves it, or its error.\<close>

definition rehydrateHostPort :: "salib \<Rightarrow> ValidationRecord \<Rightarrow> error + ValidationRecord" where
  "rehydrateHostPort sl vr =
     (if vrURL vr = [] then
        Inl (Errorf ''rehydrating validation record, URL field cannot be empty'' [])
      else case ParseURL sl (vrURL vr) of
          Inl err \<Rightarrow>
            Inl (Errorf ''parsing validation record URL %q: %w'' [ArgQ (vrURL vr), ArgM (errorMsg err)])
        | Inr parsedUrl \<Rightarrow>
            (case (if vrHostname vr = [] then
                     (if urlHostname parsedUrl = [] then
                        Inl (Errorf ''hostname missing in URL %q'' [ArgQ (vrURL vr)])
                      else Inr (vr\<lparr>vrHostname := urlHostname parsedUrl\<rparr>))
                   else Inr vr) of
               Inl err \<Rightarrow> Inl err
             | Inr vr' \<Rightarrow>
                 if vrPort vr' = [] then
                   (if urlPort parsedUrl = [] then
                      (if urlScheme parsedUrl = ''https'' then Inr (vr'\<lparr>vrPort := ''443''\<rparr>)
                       else if urlScheme parsedUrl = ''http'' then Inr (vr'\<lparr>vrPort := ''80''\<rparr>)
                       else Inl (Errorf ''unknown scheme %q in URL %q''
                                   [ArgQ (urlScheme parsedUrl), ArgQ (vrURL vr)]))
                    else if urlPort parsedUrl = ''80'' \<or> urlPort parsedUrl = ''443'' then
                      Inr (vr'\<lparr>vrPort := urlPort parsedUrl\<rparr>)
                    else Inl (Errorf ''only ports 80/tcp and 443/tcp are allowed in URL %q''
                                [ArgQ (vrURL vr)]))
                 else Inr vr'))"

text \<open>The loop over the records in \<open>populateAttemptedFields\<close>.\<close>

fun recordsToPB :: "salib \<Rightarrow> string \<Rightarrow> ValidationRecord list \<Rightarrow> error + ValidationRecord list" where
  "recordsToPB sl challType [] = Inr []"
| "recordsToPB sl challType (r # rs) =
     (case (if challType = ChallengeTypeHTTP01 then rehydrateHostPort sl r else Inr r) of
        Inl err \<Rightarrow> Inl err
      | Inr r' \<Rightarrow>
          (case ValidationRecordToPB sl r' of
             Inl err \<Rightarrow> Inl err
           | Inr pb \<Rightarrow>
               (case recordsToPB sl challType rs of
                  Inl err \<Rightarrow> Inl err
                | Inr pbs \<Rightarrow> Inr (pb # pbs))))"

text \<open>\<open>populateAttemptedFields\<close> returns the challenge as it leaves it, or its error.\<close>

definition populateAttemptedFields :: "salib \<Rightarrow> authzModel \<Rightarrow> Challenge \<Rightarrow> error + Challenge" where
  "populateAttemptedFields sl am challenge =
     (case (if length (amValidationError am) \<noteq> 0 then
              (case UnmarshalProblem sl (amValidationError am) of
                 Inl err \<Rightarrow>
                   Inl (badJSONError ''failed to unmarshal authz2 model's validation error''
                          (amValidationError am) err)
               | Inr prob \<Rightarrow>
                   (case ProblemDetailsToPB sl prob of
                      Inl err \<Rightarrow> Inl err
                    | Inr pb \<Rightarrow> Inr (challenge\<lparr>chStatus := StatusInvalid, chError := pb\<rparr>)))
            else Inr (challenge\<lparr>chStatus := StatusValid\<rparr>)) of
        Inl err \<Rightarrow> Inl err
      | Inr challenge' \<Rightarrow>
          (case UnmarshalRecords sl (amValidationRecord am) of
             Inl err \<Rightarrow>
               Inl (badJSONError ''failed to unmarshal authz2 model's validation record''
                      (amValidationRecord am) err)
           | Inr records \<Rightarrow>
               (case recordsToPB sl (chType challenge') records of
                  Inl err \<Rightarrow> Inl err
                | Inr pbs \<Rightarrow> Inr (challenge'\<lparr>chValidationrecords := pbs\<rparr>))))"

text \<open>
  The body of the loop of \<open>modelToAuthzPB\<close> for the bit position \<open>pos\<close> of the challenge
  bitmap: the challenges it appends (none or one), or its error. Then the loop over the
  positions \<open>0\<close> to \<open>7\<close>.
\<close>

definition challengeAtBit :: "salib \<Rightarrow> authzModel \<Rightarrow> nat \<Rightarrow> error + Challenge list" where
  "challengeAtBit sl am pos =
     (if drop_bit pos (amChallenges am) AND 1 = 1 then
        (let challType = uintToChallType (of_nat pos);
             challenge = \<lparr>chType = challType, chStatus = StatusPending,
                          chToken = EncodeToString sl (amToken am), chError = None,
                          chValidationrecords = [], chValidated = None\<rparr>
         in case amAttempted am of
              Some attempted \<Rightarrow>
                if uintToChallType attempted = challType then
                  (case populateAttemptedFields sl am challenge of
                     Inl err \<Rightarrow> Inl err
                   | Inr challenge' \<Rightarrow> Inr [challenge'\<lparr>chValidated := amAttemptedAt am\<rparr>])
                else Inr []
            | None \<Rightarrow> Inr [challenge])
      else Inr [])"

fun challengesOfBitmap ::
  "salib \<Rightarrow> authzModel \<Rightarrow> nat list \<Rightarrow> Challenge list \<Rightarrow> error + Challenge list" where
  "challengesOfBitmap sl am [] challenges = Inr challenges"
| "challengesOfBitmap sl am (pos # rest) challenges =
     (case challengeAtBit sl am pos of
        Inl err \<Rightarrow> Inl err
      | Inr appended \<Rightarrow> challengesOfBitmap sl am rest (challenges @ appended))"

definition modelToAuthzPB :: "salib \<Rightarrow> authzModel \<Rightarrow> error + Authorization" where
  "modelToAuthzPB sl am =
     (case uintToIdentifierType (amIdentifierType am) of
        None \<Rightarrow>
          Inl (Errorf ''unrecognized identifier type encoding %d''
                 [ArgD (uint (amIdentifierType am))])
      | Some identType \<Rightarrow>
          (let profile = (case amCertificateProfileName am of None \<Rightarrow> [] | Some p \<Rightarrow> p);
               pb = \<lparr>azId = FormatInt (amID am),
                     azRegistrationID = amRegistrationID am,
                     azIdentifier = \<lparr>Type = identType, Value = amIdentifierValue am\<rparr>,
                     azStatus = uintToStatus (amStatus am),
                     azExpires = Some (amExpires am),
                     azChallenges = [],
                     azCertificateProfileName = profile\<rparr>
           in case challengesOfBitmap sl am [0..<8] [] of
                Inl err \<Rightarrow> Inl err
              | Inr challenges \<Rightarrow> Inr (pb\<lparr>azChallenges := challenges\<rparr>)))"


section \<open>Policy authority: challenge selection (policy/pa.go)\<close>

definition ChallengeTypesFor :: "ACMEIdentifier \<Rightarrow> error + string list" where
  "ChallengeTypesFor ident =
     (if Type ident = TypeDNS then
        (if HasPrefix (Value ident) ''*.'' then Inr [ChallengeTypeDNS01]
         else Inr [ChallengeTypeHTTP01, ChallengeTypeDNS01, ChallengeTypeTLSALPN01])
      else if Type ident = TypeIP then
        Inr [ChallengeTypeHTTP01, ChallengeTypeTLSALPN01]
      else Inl (Errorf ''unrecognized identifier type %q'' [ArgQ (Type ident)]))"


section \<open>Libraries the policy authority calls\<close>

text \<open>
  \<open>netip.Addr\<close>: an IPv4 address, or an IPv6 address with its zone (empty for none).
  \<open>WithZone\<close> is the library's: a no-op on an IPv4 address, and on an IPv6 address it
  replaces the zone (the empty zone removes it). \<open>netip.Prefix\<close> is an address with a
  number of bits.
\<close>

datatype Addr = Addr4 "32 word" | Addr6 "128 word" string

datatype Prefix = Prefix Addr nat

definition WithZone :: "Addr \<Rightarrow> string \<Rightarrow> Addr" where
  "WithZone ip zone = (case ip of Addr4 w \<Rightarrow> Addr4 w | Addr6 w z \<Rightarrow> Addr6 w zone)"

definition Zone :: "Addr \<Rightarrow> string" where
  "Zone ip = (case ip of Addr4 w \<Rightarrow> [] | Addr6 w z \<Rightarrow> z)"

text \<open>\<open>blockedIdentsPolicy\<close>, the content of an identifier policy file.\<close>

record blockedIdentsPolicy =
  ExactBlockedNames :: "string list"
  HighRiskBlockedNames :: "string list"
  AdminBlockedNames :: "string list"
  AdminBlockedPrefixes :: "string list"

text \<open>
  The functions of other packages that the policy authority calls, taken as parameters:
  \<open>netip.ParseAddr\<close>, \<open>netip.Addr.String\<close>, \<open>netip.ParsePrefix\<close>, \<open>netip.Prefix.Contains\<close>;
  \<open>idna.ToUnicode\<close> and \<open>norm.NFC.IsNormalString\<close>; \<open>iana.ExtractSuffix\<close> and
  \<open>iana.IsReservedAddr\<close> (which returns an error for an address of a special-purpose
  registry, and nil otherwise); \<open>os.ReadFile\<close>, \<open>strictyaml.Unmarshal\<close> into a
  \<open>blockedIdentsPolicy\<close>, and the hexadecimal SHA-256 of a file's bytes. A function that
  returns \<open>(x, error)\<close> is an option or a sum here.
\<close>

record lib =
  ParseAddr :: "string \<Rightarrow> Addr option"
  AddrString :: "Addr \<Rightarrow> string"
  ParsePrefix :: "string \<Rightarrow> Prefix option"
  PrefixContains :: "Prefix \<Rightarrow> Addr \<Rightarrow> bool"
  ToUnicode :: "string \<Rightarrow> string option"
  IsNormalString :: "string \<Rightarrow> bool"
  ExtractSuffix :: "string \<Rightarrow> string option"
  IsReservedAddr :: "Addr \<Rightarrow> error option"
  ReadFile :: "string \<Rightarrow> error + string"
  Unmarshal :: "string \<Rightarrow> error + blockedIdentsPolicy"
  Sha256Hex :: "string \<Rightarrow> string"


section \<open>Policy authority (policy/pa.go)\<close>

text \<open>
  \<open>AuthorityImpl\<close>. The three name tables are Go maps, nil until a policy is loaded. The
  logger is modelled by the list of messages logged so far.
\<close>

record AuthorityImpl =
  log :: "msg list"
  domainBlocklist :: boolmap
  fqdnBlocklist :: boolmap
  wildcardFqdnBlocklist :: boolmap
  ipPrefixBlocklist :: "Prefix list"
  enabledChallenges :: "string \<Rightarrow> bool"
  enabledIdentifiers :: "string \<Rightarrow> bool"

definition maxLabels :: nat where "maxLabels = 10"
definition maxLabelLength :: nat where "maxLabelLength = 63"
definition maxDNSIdentifierLength :: nat where "maxDNSIdentifierLength = 253"

text \<open>\<open>dnsLabelCharacterRegexp\<close>, \<open>^[a-z0-9-]+$\<close>: a non-empty string of these bytes.\<close>

definition dnsLabelCharacter :: "char \<Rightarrow> bool" where
  "dnsLabelCharacter ch =
     ((CHR ''a'' \<le> ch \<and> ch \<le> CHR ''z'') \<or> (CHR ''0'' \<le> ch \<and> ch \<le> CHR ''9'') \<or> ch = CHR ''-'')"

definition dnsLabelCharacterRegexp :: "string \<Rightarrow> bool" where
  "dnsLabelCharacterRegexp label = (label \<noteq> [] \<and> list_all dnsLabelCharacter label)"

definition isDNSCharacter :: "char \<Rightarrow> bool" where
  "isDNSCharacter ch =
     ((CHR ''a'' \<le> ch \<and> ch \<le> CHR ''z'') \<or>
      (CHR ''A'' \<le> ch \<and> ch \<le> CHR ''Z'') \<or>
      (CHR ''0'' \<le> ch \<and> ch \<le> CHR ''9'') \<or>
      ch = CHR ''.'' \<or> ch = CHR ''-'')"

definition errNonPublic :: BoulderError where
  "errNonPublic = MalformedError ''Domain name does not end with a valid public suffix (TLD)'' []"
definition errICANNTLD :: BoulderError where
  "errICANNTLD = MalformedError ''Domain name is an ICANN TLD'' []"
definition errPolicyForbidden :: BoulderError where
  "errPolicyForbidden = RejectedIdentifierError
     (''The ACME server refuses to issue a certificate for this domain name, '' @
      ''because it is forbidden by policy'') []"
definition errInvalidDNSCharacter :: BoulderError where
  "errInvalidDNSCharacter = MalformedError ''Domain name contains an invalid character'' []"
definition errNameTooLong :: BoulderError where
  "errNameTooLong = MalformedError ''Domain name is longer than 253 bytes'' []"
definition errIPAddressInDNS :: BoulderError where
  "errIPAddressInDNS = MalformedError ''Identifier type is DNS but value is an IP address'' []"
definition errIPInvalid :: BoulderError where
  "errIPInvalid = MalformedError ''IP address is invalid'' []"
definition errTooManyLabels :: BoulderError where
  "errTooManyLabels = MalformedError ''Domain name has more than 10 labels (parts)'' []"
definition errEmptyIdentifier :: BoulderError where
  "errEmptyIdentifier = MalformedError ''Identifier value (name) is empty'' []"
definition errNameEndsInDot :: BoulderError where
  "errNameEndsInDot = MalformedError ''Domain name ends in a dot'' []"
definition errTooFewLabels :: BoulderError where
  "errTooFewLabels = MalformedError ''Domain name needs at least one dot'' []"
definition errLabelTooShort :: BoulderError where
  "errLabelTooShort = MalformedError ''Domain name can not have two dots in a row'' []"
definition errLabelTooLong :: BoulderError where
  "errLabelTooLong = MalformedError
     ''Domain has a label (component between dots) longer than 63 bytes'' []"
definition errMalformedIDN :: BoulderError where
  "errMalformedIDN = MalformedError ''Domain name contains malformed punycode'' []"
definition errInvalidRLDH :: BoulderError where
  "errInvalidRLDH = RejectedIdentifierError
     ''Domain name contains an invalid label in a reserved format (R-LDH: '??--')'' []"
definition errTooManyWildcards :: BoulderError where
  "errTooManyWildcards = MalformedError ''Domain name has more than one wildcard'' []"
definition errMalformedWildcard :: BoulderError where
  "errMalformedWildcard = MalformedError
     (''Domain name contains an invalid wildcard. '' @
      ''A wildcard is only permitted before the first dot in a domain name'') []"
definition errICANNTLDWildcard :: BoulderError where
  "errICANNTLDWildcard = MalformedError ''Domain name is a wildcard for an ICANN TLD'' []"
definition errWildcardNotSupported :: BoulderError where
  "errWildcardNotSupported = MalformedError ''Wildcard domain names are not supported'' []"
definition errUnsupportedIdent :: BoulderError where
  "errUnsupportedIdent = MalformedError ''Invalid identifier type'' []"

text \<open>The body of the loop over the labels in \<open>validNonWildcardDomain\<close>, and the loop.\<close>

definition checkLabel :: "lib \<Rightarrow> string \<Rightarrow> error option" where
  "checkLabel l label =
     (if length label < 1 then Some (Berr errLabelTooShort)
      else if length label > maxLabelLength then Some (Berr errLabelTooLong)
      else if \<not> dnsLabelCharacterRegexp label then Some (Berr errInvalidDNSCharacter)
      else if hd label = CHR ''-'' \<or> last label = CHR ''-'' then Some (Berr errInvalidDNSCharacter)
      else if length label \<ge> 4 \<and> take 2 (drop 2 label) = ''--'' then
        (if take 2 label \<noteq> ''xn'' then Some (Berr errInvalidRLDH)
         else case ToUnicode l label of
             None \<Rightarrow> Some (Berr errMalformedIDN)
           | Some ulabel \<Rightarrow>
               if \<not> IsNormalString l ulabel then Some (Berr errMalformedIDN) else None)
      else None)"

fun checkLabels :: "lib \<Rightarrow> string list \<Rightarrow> error option" where
  "checkLabels l [] = None"
| "checkLabels l (label # labels) =
     (case checkLabel l label of Some e \<Rightarrow> Some e | None \<Rightarrow> checkLabels l labels)"

definition validNonWildcardDomain :: "lib \<Rightarrow> string \<Rightarrow> error option" where
  "validNonWildcardDomain l domain =
     (if domain = [] then Some (Berr errEmptyIdentifier)
      else if HasPrefix domain ''*.'' then Some (Berr errWildcardNotSupported)
      else if \<not> list_all isDNSCharacter domain then Some (Berr errInvalidDNSCharacter)
      else if length domain > maxDNSIdentifierLength then Some (Berr errNameTooLong)
      else if ParseAddr l domain \<noteq> None then Some (Berr errIPAddressInDNS)
      else if HasSuffix domain ''.'' then Some (Berr errNameEndsInDot)
      else
        let labels = Split domain CHR ''.'' in
        if length labels > maxLabels then Some (Berr errTooManyLabels)
        else if length labels < 2 then Some (Berr errTooFewLabels)
        else case checkLabels l labels of
            Some e \<Rightarrow> Some e
          | None \<Rightarrow>
              (case ExtractSuffix l domain of
                 None \<Rightarrow> Some (Berr errNonPublic)
               | Some icannTLD \<Rightarrow>
                   if icannTLD = domain then Some (Berr errICANNTLD) else None))"

definition ValidDomain :: "lib \<Rightarrow> string \<Rightarrow> error option" where
  "ValidDomain l domain =
     (if Count domain CHR ''*'' \<le> 0 then validNonWildcardDomain l domain
      else if Count domain CHR ''*'' > 1 then Some (Berr errTooManyWildcards)
      else if \<not> HasPrefix domain ''*.'' then Some (Berr errMalformedWildcard)
      else
        let baseDomain = TrimPrefix domain ''*.'' in
        case ExtractSuffix l baseDomain of
          None \<Rightarrow> Some (Berr errNonPublic)
        | Some icannTLD \<Rightarrow>
            if baseDomain = icannTLD then Some (Berr errICANNTLDWildcard)
            else validNonWildcardDomain l baseDomain)"

definition ValidIP :: "lib \<Rightarrow> string \<Rightarrow> error option" where
  "ValidIP l ip =
     (if ip = [] then Some (Berr errEmptyIdentifier)
      else case ParseAddr l ip of
          None \<Rightarrow> Some (Berr errIPInvalid)
        | Some parsedIP \<Rightarrow>
            if AddrString l (WithZone parsedIP []) \<noteq> ip then Some (Berr errIPInvalid)
            else IsReservedAddr l parsedIP)"


section \<open>Policy authority: loading a policy and the block lists (policy/pa.go)\<close>

text \<open>The loops of \<open>processIdentPolicy\<close>: \<open>nameMap[v] = true\<close> for each name of a list.\<close>

definition addNames :: "string list \<Rightarrow> (string \<rightharpoonup> bool) \<Rightarrow> (string \<rightharpoonup> bool)" where
  "addNames vs nameMap = fold (\<lambda>v m. m(v \<mapsto> True)) vs nameMap"

text \<open>
  The loop over \<open>ExactBlockedNames\<close>, which fills the exact table and the wildcard table
  and returns at the first entry with fewer than two parts.
\<close>

fun exactLoop ::
  "string list \<Rightarrow> (string \<rightharpoonup> bool) \<times> (string \<rightharpoonup> bool) \<Rightarrow>
   error + (string \<rightharpoonup> bool) \<times> (string \<rightharpoonup> bool)" where
  "exactLoop [] (exactNameMap, wildcardNameMap) = Inr (exactNameMap, wildcardNameMap)"
| "exactLoop (v # vs) (exactNameMap, wildcardNameMap) =
     (let exactNameMap' = exactNameMap(v \<mapsto> True);
          parts = SplitN2 v CHR ''.''
      in if length parts < 2 then
           Inl (Errorf ''malformed ExactBlockedNames entry, only one label: %q'' [ArgQ v])
         else exactLoop vs (exactNameMap', wildcardNameMap(parts ! 1 \<mapsto> True)))"

text \<open>The loop over \<open>AdminBlockedPrefixes\<close>.\<close>

fun prefixLoop :: "lib \<Rightarrow> string list \<Rightarrow> Prefix list \<Rightarrow> error + Prefix list" where
  "prefixLoop l [] prefixes = Inr prefixes"
| "prefixLoop l (p # ps) prefixes =
     (case ParsePrefix l p of
        None \<Rightarrow> Inl (Errorf ''malformed AdminBlockedPrefixes entry, not a prefix: %q'' [ArgQ p])
      | Some prefix \<Rightarrow> prefixLoop l ps (prefixes @ [prefix]))"

text \<open>
  \<open>processIdentPolicy\<close> returns its error and the policy authority as it leaves it. The
  four assignments stand under one lock; here they are one record update.
\<close>

definition processIdentPolicy ::
  "lib \<Rightarrow> AuthorityImpl \<Rightarrow> blockedIdentsPolicy \<Rightarrow> error option \<times> AuthorityImpl" where
  "processIdentPolicy l pa policy =
     (let nameMap = addNames (AdminBlockedNames policy)
                      (addNames (HighRiskBlockedNames policy) Map.empty)
      in case exactLoop (ExactBlockedNames policy) (Map.empty, Map.empty) of
           Inl err \<Rightarrow> (Some err, pa)
         | Inr (exactNameMap, wildcardNameMap) \<Rightarrow>
             (case prefixLoop l (AdminBlockedPrefixes policy) [] of
                Inl err \<Rightarrow> (Some err, pa)
              | Inr prefixes \<Rightarrow>
                  (None, pa\<lparr>domainBlocklist := Some nameMap,
                             fqdnBlocklist := Some exactNameMap,
                             wildcardFqdnBlocklist := Some wildcardNameMap,
                             ipPrefixBlocklist := prefixes\<rparr>)))"

definition LoadIdentPolicyFile ::
  "lib \<Rightarrow> AuthorityImpl \<Rightarrow> string \<Rightarrow> error option \<times> AuthorityImpl" where
  "LoadIdentPolicyFile l pa f =
     (case ReadFile l f of
        Inl err \<Rightarrow> (Some err, pa)
      | Inr configBytes \<Rightarrow>
          let pa' = pa\<lparr>log := log pa @
                      [Sprintf ''loading identifier policy, sha256: %s''
                         [ArgS (Sha256Hex l configBytes)]]\<rparr>
          in case Unmarshal l configBytes of
               Inl err \<Rightarrow> (Some err, pa')
             | Inr policy \<Rightarrow>
                 if length (HighRiskBlockedNames policy) = 0 then
                   (Some (Errorf ''no entries in HighRiskBlockedNames'' []), pa')
                 else if length (ExactBlockedNames policy) = 0 then
                   (Some (Errorf ''no entries in ExactBlockedNames'' []), pa')
                 else processIdentPolicy l pa' policy)"

text \<open>
  \<open>subError\<close>: a \<open>BoulderError\<close> is kept; any other error becomes a rejected-identifier
  error whose detail is the error's message.
\<close>

definition subError :: "ACMEIdentifier \<Rightarrow> error \<Rightarrow> ACMEIdentifier \<times> BoulderError" where
  "subError ident err =
     (case err of
        Berr bErr \<Rightarrow> (ident, bErr)
      | Errorf f args \<Rightarrow> (ident, BoulderError RejectedIdentifier (Sprintf f args) []))"

definition combineSubErrors :: "(ACMEIdentifier \<times> BoulderError) list \<Rightarrow> error option" where
  "combineSubErrors subErrs =
     (if length subErrs > 0 then
        (if length subErrs = 1 then
           Some (Berr (RejectedIdentifierError ''Cannot issue for %q: %s''
                   [ArgQ (Value (fst (hd subErrs))), ArgM (detail (snd (hd subErrs)))]))
         else
           Some (Berr (BoulderError RejectedIdentifier
                   (Sprintf
                      (''Cannot issue for %q: %s (and %d more problems. '' @
                       ''Refer to sub-problems for more information.)'')
                      [ArgQ (Value (fst (hd subErrs))), ArgM (detail (snd (hd subErrs))),
                       ArgD (int (length subErrs) - 1)])
                   subErrs)))
      else None)"

definition checkWildcardBlocklist :: "AuthorityImpl \<Rightarrow> string \<Rightarrow> error option" where
  "checkWildcardBlocklist pa domain =
     (if wildcardFqdnBlocklist pa = None then Some (Errorf ''identifier policy not yet loaded'' [])
      else if lookup (wildcardFqdnBlocklist pa) domain then Some (Berr errPolicyForbidden)
      else None)"

definition checkBlocklists :: "lib \<Rightarrow> AuthorityImpl \<Rightarrow> ACMEIdentifier \<Rightarrow> error option" where
  "checkBlocklists l pa ident =
     (if domainBlocklist pa = None then Some (Errorf ''identifier policy not yet loaded'' [])
      else if Type ident = TypeDNS then
        (let labels = Split (Value ident) CHR ''.'' in
         if list_ex (\<lambda>i. lookup (domainBlocklist pa) (Join (drop i labels) CHR ''.''))
              [0..<length labels]
         then Some (Berr errPolicyForbidden)
         else if lookup (fqdnBlocklist pa) (Value ident) then Some (Berr errPolicyForbidden)
         else None)
      else if Type ident = TypeIP then
        (case ParseAddr l (Value ident) of
           None \<Rightarrow> Some (Berr errIPInvalid)
         | Some ip \<Rightarrow>
             if list_ex (\<lambda>prefix. PrefixContains l prefix (WithZone ip [])) (ipPrefixBlocklist pa)
             then Some (Berr errPolicyForbidden)
             else None)
      else Some (Berr errUnsupportedIdent))"

text \<open>The sub-errors one identifier adds in the loop of \<open>WellFormedIdentifiers\<close>.\<close>

definition wellFormedIdentifier :: "lib \<Rightarrow> ACMEIdentifier \<Rightarrow> (ACMEIdentifier \<times> BoulderError) list" where
  "wellFormedIdentifier l ident =
     (if Type ident = TypeDNS then
        (case ValidDomain l (Value ident) of Some err \<Rightarrow> [subError ident err] | None \<Rightarrow> [])
      else if Type ident = TypeIP then
        (case ValidIP l (Value ident) of Some err \<Rightarrow> [subError ident err] | None \<Rightarrow> [])
      else [subError ident (Berr errUnsupportedIdent)])"

definition WellFormedIdentifiers :: "lib \<Rightarrow> ACMEIdentifier list \<Rightarrow> error option" where
  "WellFormedIdentifiers l idents = combineSubErrors (concat (map (wellFormedIdentifier l) idents))"

definition IdentifierTypeEnabled :: "AuthorityImpl \<Rightarrow> string \<Rightarrow> bool" where
  "IdentifierTypeEnabled pa t = enabledIdentifiers pa t"

text \<open>The sub-errors one identifier adds in the loop of \<open>WillingToIssue\<close>.\<close>

definition willingToIssueIdentifier ::
  "lib \<Rightarrow> AuthorityImpl \<Rightarrow> ACMEIdentifier \<Rightarrow> (ACMEIdentifier \<times> BoulderError) list" where
  "willingToIssueIdentifier l pa ident =
     (if \<not> IdentifierTypeEnabled pa (Type ident) then
        [subError ident
           (Berr (RejectedIdentifierError ''The ACME server has disabled this identifier type'' []))]
      else
        case (if Type ident = TypeDNS \<and> Count (Value ident) CHR ''*'' > 0
              then checkWildcardBlocklist pa (TrimPrefix (Value ident) ''*.'')
              else None) of
          Some err \<Rightarrow> [subError ident err]
        | None \<Rightarrow>
            (case checkBlocklists l pa ident of
               Some err \<Rightarrow> [subError ident err]
             | None \<Rightarrow> []))"

definition WillingToIssue :: "lib \<Rightarrow> AuthorityImpl \<Rightarrow> ACMEIdentifier list \<Rightarrow> error option" where
  "WillingToIssue l pa idents =
     (case WellFormedIdentifiers l idents of
        Some err \<Rightarrow> Some err
      | None \<Rightarrow> combineSubErrors (concat (map (willingToIssueIdentifier l pa) idents)))"


section \<open>Rate limits: dumping the overrides (ratelimits)\<close>

text \<open>
  \<open>time.Duration.String\<close>, the library's rendering of a count of nanoseconds such as
  \<open>72h3m0.5s\<close>. \<open>fmtFrac\<close> gives the fraction of \<open>v / 10^prec\<close> without trailing zeros
  (with its decimal point, or nothing when the fraction is zero) and the quotient.
\<close>

fun fracDigits :: "int \<Rightarrow> nat \<Rightarrow> bool \<Rightarrow> string" where
  "fracDigits v 0 print = []"
| "fracDigits v (Suc i) print =
     fracDigits (v div 10) i (print \<or> v mod 10 \<noteq> 0) @
     (if print \<or> v mod 10 \<noteq> 0 then [char_of (48 + v mod 10)] else [])"

definition fmtFrac :: "int \<Rightarrow> nat \<Rightarrow> string \<times> int" where
  "fmtFrac v prec =
     (if fracDigits v prec False = [] then [] else CHR ''.'' # fracDigits v prec False,
      v div 10 ^ prec)"

text \<open>
  The branch of \<open>Duration.String\<close> for a second or more, from the inside out: the hours
  before the minutes text \<open>m\<close> (if any), the minutes before the seconds text \<open>s\<close> (if
  any), and the seconds with their fraction.
\<close>

definition withHours :: "int \<Rightarrow> string \<Rightarrow> string" where
  "withHours hours m = (if hours > 0 then FormatUint hours @ ''h'' @ m else m)"

definition withMinutes :: "int \<Rightarrow> string \<Rightarrow> string" where
  "withMinutes mins s =
     (if mins > 0 then withHours (mins div 60) (FormatUint (mins mod 60) @ ''m'' @ s) else s)"

definition secondsText :: "int \<Rightarrow> string" where
  "secondsText u =
     withMinutes (snd (fmtFrac u 9) div 60)
       (FormatUint (snd (fmtFrac u 9) mod 60) @ fst (fmtFrac u 9) @ ''s'')"

text \<open>The text for the absolute value \<open>u\<close>, and \<open>Duration.String\<close> with the sign.\<close>

definition durationText :: "int \<Rightarrow> string" where
  "durationText u =
     (if u < 1000000000 then
        (if u = 0 then ''0s''
         else if u < 1000 then FormatUint u @ ''ns''
         else if u < 1000000 then
           FormatUint (snd (fmtFrac u 3)) @ fst (fmtFrac u 3) @ [CHR 0xC2, CHR 0xB5, CHR ''s'']
         else FormatUint (snd (fmtFrac u 6)) @ fst (fmtFrac u 6) @ ''ms'')
      else secondsText u)"

definition DurationString :: "int \<Rightarrow> string" where
  "DurationString d =
     (if d < 0 then CHR ''-'' # durationText \<bar>d\<bar> else durationText \<bar>d\<bar>)"

text \<open>
  \<open>strconv.Atoi\<close>: an optional sign and decimal digits, within the range of a 64-bit
  \<open>int\<close>.
\<close>

definition isDigit :: "char \<Rightarrow> bool" where
  "isDigit c = (CHR ''0'' \<le> c \<and> c \<le> CHR ''9'')"

definition digitsValue :: "string \<Rightarrow> nat" where
  "digitsValue ds = foldl (\<lambda>n c. 10 * n + (of_char c - 48)) 0 ds"

definition Atoi :: "string \<Rightarrow> int option" where
  "Atoi s =
     (let neg = (s \<noteq> [] \<and> hd s = CHR ''-'');
          ds = (if s \<noteq> [] \<and> (hd s = CHR ''-'' \<or> hd s = CHR ''+'') then tl s else s)
      in if ds = [] \<or> \<not> list_all isDigit ds then None
         else
           let n = (if neg then - int (digitsValue ds) else int (digitsValue ds))
           in if n < - (2 ^ 63) \<or> 2 ^ 63 - 1 < n then None else Some n)"

text \<open>
  \<open>Limit\<close>. \<open>Period\<close> is a \<open>config.Duration\<close>, a count of nanoseconds, and \<open>Name\<close> is an
  integer enumeration.
\<close>

record Limit =
  limBurst :: int
  limCount :: int
  limPeriod :: int
  limName :: int
  limComment :: string
  emissionInterval :: int
  burstOffset :: int
  isOverride :: bool

text \<open>
  The enumeration of limit names (\<open>Name.isValid\<close>, \<open>Name.String\<close>, and \<open>LimitNames\<close>
  for the error messages) lives in a file that is not among the sources; it is a parameter,
  and so is \<open>os.Create\<close> (the error it returns, if any).
\<close>

record names =
  isValid :: "int \<Rightarrow> bool"
  NameString :: "int \<Rightarrow> string"
  LimitNames :: "string list"
  Create :: "string \<Rightarrow> error option"

definition Unknown :: int where "Unknown = 0"

definition parseOverrideNameEnumId :: "names \<Rightarrow> string \<Rightarrow> error + int \<times> string" where
  "parseOverrideNameEnumId ns key =
     (if CHR '':'' \<notin> set key then
        Inl (Errorf (''invalid override %q, must be formatted 'name:id'' @ [CHR 0x27]) [ArgQ key])
      else
        let nameStrAndId = SplitN2 key CHR '':'' in
        if length nameStrAndId \<noteq> 2 then
          Inl (Errorf (''invalid override %q, must be formatted 'name:id'' @ [CHR 0x27]) [ArgQ key])
        else case Atoi (nameStrAndId ! 0) of
            None \<Rightarrow>
              Inl (Errorf ''invalid name %q in override limit %q, must be an integer''
                     [ArgQ (nameStrAndId ! 0), ArgQ key])
          | Some nameInt \<Rightarrow>
              if \<not> isValid ns nameInt then
                Inl (Errorf ''invalid name %q in override limit %q, must be one of %v''
                       [ArgQ (nameStrAndId ! 0), ArgQ key, ArgV (LimitNames ns)])
              else if nameStrAndId ! 1 = [] then
                Inl (Errorf (''empty id in override %q, must be formatted 'name:id'' @ [CHR 0x27]) [ArgQ key])
              else Inr (nameInt, nameStrAndId ! 1))"

text \<open>The local type \<open>row\<close> of \<open>DumpOverrides\<close> and the \<open>less\<close> function it sorts by.\<close>

record row =
  rowName :: string
  rowId :: string
  rowCount :: int
  rowBurst :: int
  rowPeriod :: string
  rowComment :: string

definition lessRow :: "row \<Rightarrow> row \<Rightarrow> bool" where
  "lessRow ri rj =
     (if rowName ri \<noteq> rowName rj then rowName ri < rowName rj
      else if rowCount ri \<noteq> rowCount rj then rowCount ri > rowCount rj
      else if rowBurst ri \<noteq> rowBurst rj then rowBurst ri > rowBurst rj
      else if rowPeriod ri \<noteq> rowPeriod rj then rowPeriod ri < rowPeriod rj
      else if rowComment ri \<noteq> rowComment rj then rowComment ri < rowComment rj
      else rowId ri < rowId rj)"

text \<open>
  \<open>sort.Slice\<close> sorts a slice by a \<open>less\<close> function; it is modelled by insertion sort.
  (\<open>lessRow\<close> orders any two different rows, so the sorted list does not depend on the
  algorithm.)
\<close>

fun insertBy :: "('a \<Rightarrow> 'a \<Rightarrow> bool) \<Rightarrow> 'a \<Rightarrow> 'a list \<Rightarrow> 'a list" where
  "insertBy lt x [] = [x]"
| "insertBy lt x (y # ys) = (if lt y x then y # insertBy lt x ys else x # y # ys)"

definition sortSlice :: "('a \<Rightarrow> 'a \<Rightarrow> bool) \<Rightarrow> 'a list \<Rightarrow> 'a list" where
  "sortSlice lt xs = foldr (insertBy lt) xs []"

text \<open>
  The first loop of \<open>DumpOverrides\<close>, over the entries of the map in the order the
  \<open>range\<close> statement visits them.
\<close>

fun overrideRows :: "names \<Rightarrow> (string \<times> Limit) list \<Rightarrow> row list \<Rightarrow> error + row list" where
  "overrideRows ns [] rows = Inr rows"
| "overrideRows ns ((bucketKey, limit) # rest) rows =
     (case parseOverrideNameEnumId ns bucketKey of
        Inl err \<Rightarrow> Inl err
      | Inr (name, ident) \<Rightarrow>
          overrideRows ns rest
            (rows @ [\<lparr>rowName = NameString ns name, rowId = ident, rowCount = limCount limit,
                      rowBurst = limBurst limit, rowPeriod = DurationString (limPeriod limit),
                      rowComment = limComment limit\<rparr>]))"

definition csvRecord :: "row \<Rightarrow> string list" where
  "csvRecord r =
     [rowName r, rowId r, FormatInt (rowCount r), FormatInt (rowBurst r), rowPeriod r,
      rowComment r]"

text \<open>
  \<open>DumpOverrides\<close> returns its error, or the records it hands to the CSV writer, the
  header first. (The writer is taken to succeed.)
\<close>

definition DumpOverrides ::
  "names \<Rightarrow> string \<Rightarrow> (string \<times> Limit) list \<Rightarrow> error + string list list" where
  "DumpOverrides ns path overrides =
     (case overrideRows ns overrides [] of
        Inl err \<Rightarrow> Inl err
      | Inr rows \<Rightarrow>
          (case Create ns path of
             Some err \<Rightarrow> Inl err
           | None \<Rightarrow>
               Inr ([''name'', ''id'', ''count'', ''burst'', ''period'', ''comment''] #
                    map csvRecord (sortSlice lessRow rows))))"


section \<open>Vocabulary of the properties\<close>

text \<open>
  Predicates on one authorization, read off the switch of \<open>statusForOrder\<close>: a status
  code outside the five keys of \<open>uintToStatus\<close>; a status of invalid, deactivated or
  revoked, or an expiry before \<open>now\<close>; a pending status. \<open>invalidStatusError\<close> is the
  error of the switch's default branch.
\<close>

definition unknownStatus :: "authzValidity \<Rightarrow> bool" where
  "unknownStatus info = (avStatus info \<notin> {0, 1, 2, 3, 4})"

definition blockingAuthz :: "time \<Rightarrow> authzValidity \<Rightarrow> bool" where
  "blockingAuthz now info = (avStatus info \<in> {2, 3, 4} \<or> Before (avExpires info) now)"

definition pendingAuthz :: "authzValidity \<Rightarrow> bool" where
  "pendingAuthz info = (avStatus info = 0)"

definition invalidStatusError :: "authzValidity \<Rightarrow> error" where
  "invalidStatusError info =
     InternalServerError ''Order is in an invalid state. Authz has invalid status %d''
       [ArgD (uint (avStatus info))]"

definition sampleOrder :: Order where
  "sampleOrder =
     \<lparr>Id = 7, RegistrationID = 1, Expires = Some 100, Error = None, CertificateSerial = [],
      Identifiers = [\<lparr>Type = TypeDNS, Value = ''a.example.com''\<rparr>,
                     \<lparr>Type = TypeDNS, Value = ''b.example.com''\<rparr>],
      BeganProcessing = False, V2Authorizations = [11, 12]\<rparr>"

definition sampleAuthz :: "8 word \<Rightarrow> authzValidity" where
  "sampleAuthz st =
     \<lparr>avIdentifierType = 0, avIdentifierValue = ''a.example.com'', avStatus = st,
      avExpires = 100\<rparr>"

text \<open>
  The spec's \<open>lower\<close>: \<open>strings.ToLower\<close> on the ASCII letters (on a string of ASCII bytes
  this is all that \<open>strings.ToLower\<close> does). \<open>isUpper\<close> is an upper-case ASCII letter.
\<close>

definition isUpper :: "char \<Rightarrow> bool" where
  "isUpper c = (CHR ''A'' \<le> c \<and> c \<le> CHR ''Z'')"

definition toLowerByte :: "char \<Rightarrow> char" where
  "toLowerByte c = (if isUpper c then char_of (of_char c + (32 :: nat)) else c)"

definition ToLower :: "string \<Rightarrow> string" where
  "ToLower s = map toLowerByte s"

text \<open>
  A finite sample of the libraries' behaviour, used only to run the model at concrete
  inputs. It knows the addresses, the prefix and the files that the sample inputs mention
  (the policy files are one-line YAML documents, with their SHA-256), its public suffix
  list is cut down to \<open>com\<close> and \<open>org\<close>, and its \<open>Contains\<close> is that of IPv4 prefixes.
\<close>


definition sample_policy :: string where
  "sample_policy =
     ''{ExactBlockedNames: [hi.example.com], HighRiskBlockedNames: [bad.com], AdminBlockedPrefixes: [10.0.0.0/8]}''"

definition sample_nohighrisk :: string where
  "sample_nohighrisk =
     ''{ExactBlockedNames: [hi.example.com]}''"

definition sample_onelabel :: string where
  "sample_onelabel =
     ''{ExactBlockedNames: [localhost], HighRiskBlockedNames: [bad.com]}''"

definition sample_badprefix :: string where
  "sample_badprefix =
     ''{ExactBlockedNames: [hi.example.com], HighRiskBlockedNames: [bad.com], AdminBlockedPrefixes: [10.0.0.0]}''"

definition sample_broken :: string where
  "sample_broken =
     ''{''"

definition samplePolicy :: blockedIdentsPolicy where
  "samplePolicy =
     \<lparr>ExactBlockedNames = [''hi.example.com''],
      HighRiskBlockedNames = [''bad.com''],
      AdminBlockedNames = [],
      AdminBlockedPrefixes = [''10.0.0.0/8'']\<rparr>"

definition sampleExtractSuffix :: "string \<Rightarrow> string option" where
  "sampleExtractSuffix name =
     (let tld = last (Split name CHR ''.'')
      in if name \<noteq> [] \<and> (tld = ''com'' \<or> tld = ''org'') then Some tld else None)"

definition sampleLib :: lib where
  "sampleLib =
     \<lparr>ParseAddr = map_of
        [(''8.8.8.8'', Addr4 0x08080808),
         (''10.1.2.3'', Addr4 0x0A010203),
         (''127.0.0.1'', Addr4 0x7F000001),
         (''2001:4860:4860::8888'', Addr6 0x20014860486000000000000000008888 []),
         (''2001:4860:4860:0:0:0:0:8888'', Addr6 0x20014860486000000000000000008888 []),
         (''fe80::1'', Addr6 0xFE800000000000000000000000000001 []),
         (''fe80::1%eth0'', Addr6 0xFE800000000000000000000000000001 ''eth0'')],
      AddrString = (\<lambda>a.
         if a = Addr4 0x08080808 then ''8.8.8.8''
         else if a = Addr4 0x0A010203 then ''10.1.2.3''
         else if a = Addr4 0x7F000001 then ''127.0.0.1''
         else if a = Addr6 0x20014860486000000000000000008888 [] then ''2001:4860:4860::8888''
         else if a = Addr6 0xFE800000000000000000000000000001 [] then ''fe80::1''
         else if a = Addr6 0xFE800000000000000000000000000001 ''eth0'' then ''fe80::1%eth0''
         else []),
      ParsePrefix = map_of [(''10.0.0.0/8'', Prefix (Addr4 0x0A000000) 8)],
      PrefixContains = (\<lambda>p a.
         case (p, a) of
           (Prefix (Addr4 n) bits, Addr4 w) \<Rightarrow>
             bits \<le> 32 \<and> drop_bit (32 - bits) n = drop_bit (32 - bits) w
         | _ \<Rightarrow> False),
      ToUnicode = (\<lambda>label. None),
      IsNormalString = (\<lambda>s. True),
      ExtractSuffix = sampleExtractSuffix,
      IsReservedAddr = (\<lambda>a.
         if a = Addr4 0x7F000001 then
           Some (Errorf ''IP address is in a reserved address block: %s: %s''
                   [ArgS ''127.0.0.0/8'', ArgS ''Loopback''])
         else if a = Addr4 0x0A010203 then
           Some (Errorf ''IP address is in a reserved address block: %s: %s''
                   [ArgS ''10.0.0.0/8'', ArgS ''Private-Use''])
         else if a = Addr6 0xFE800000000000000000000000000001 [] \<or>
                 a = Addr6 0xFE800000000000000000000000000001 ''eth0'' then
           Some (Errorf ''IP address is in a reserved address block: %s: %s''
                   [ArgS ''fe80::/10'', ArgS ''Link-Local Unicast''])
         else None),
      ReadFile = (\<lambda>f.
         if f = ''policy.yaml'' then Inr sample_policy
         else if f = ''nohighrisk.yaml'' then Inr sample_nohighrisk
         else if f = ''onelabel.yaml'' then Inr sample_onelabel
         else if f = ''badprefix.yaml'' then Inr sample_badprefix
         else if f = ''broken.yaml'' then Inr sample_broken
         else Inl (Errorf ''open %s: no such file or directory'' [ArgS f])),
      Unmarshal = (\<lambda>s.
         if s = sample_policy then Inr samplePolicy
         else if s = sample_nohighrisk then
           Inr \<lparr>ExactBlockedNames = [''hi.example.com''], HighRiskBlockedNames = [],
                AdminBlockedNames = [], AdminBlockedPrefixes = []\<rparr>
         else if s = sample_onelabel then
           Inr \<lparr>ExactBlockedNames = [''localhost''], HighRiskBlockedNames = [''bad.com''],
                AdminBlockedNames = [], AdminBlockedPrefixes = []\<rparr>
         else if s = sample_badprefix then
           Inr \<lparr>ExactBlockedNames = [''hi.example.com''], HighRiskBlockedNames = [''bad.com''],
                AdminBlockedNames = [], AdminBlockedPrefixes = [''10.0.0.0'']\<rparr>
         else Inl (Errorf ''yaml: unmarshal errors'' [])),
      Sha256Hex = (\<lambda>s.
         if s = sample_policy then
           ''9496b4550e078be36767b4bf4e0aae7ba7b1fc3dfc75409b449973ea2acd61c8''
         else if s = sample_nohighrisk then
           ''ffc0aae74c6ffe24912d57ffa2cba7f9f77c8b7289f03202d0562ed40cf2c813''
         else if s = sample_onelabel then
           ''51bbebb0a41f56491fe233dbbc69d4d6e27798dd0c0508a1f0865baf66938eba''
         else if s = sample_badprefix then
           ''7091b65bb4156e363c4e7c8f27d9f5de09372096dbde4ff5c557ba3b1415c9ff''
         else if s = sample_broken then
           ''021fb596db81e6d02bf3d2586ee3981fe519f275c0ac9ca76bbcf2ebb4097d96''
         else [])\<rparr>"

text \<open>
  The error \<open>ValidIP\<close> returns for a string that is not an address in canonical form.
\<close>

definition notAnIP :: "string \<Rightarrow> BoulderError" where
  "notAnIP ip = (if ip = [] then errEmptyIdentifier else errIPInvalid)"

text \<open>
  The four block lists of the policy authority; the part of a name after its first dot
  (what \<open>processIdentPolicy\<close> enters into the wildcard table); and a policy authority as
  \<open>New\<close> makes it, with the identifier and challenge types of the test configuration.
\<close>

definition blocklists :: "AuthorityImpl \<Rightarrow> boolmap \<times> boolmap \<times> boolmap \<times> Prefix list" where
  "blocklists pa =
     (domainBlocklist pa, fqdnBlocklist pa, wildcardFqdnBlocklist pa, ipPrefixBlocklist pa)"

definition parentName :: "string \<Rightarrow> string" where
  "parentName v = tl (dropWhile (\<lambda>c. c \<noteq> CHR ''.'') v)"

definition samplePA :: AuthorityImpl where
  "samplePA =
     \<lparr>log = [], domainBlocklist = None, fqdnBlocklist = None, wildcardFqdnBlocklist = None,
      ipPrefixBlocklist = [],
      enabledChallenges = (\<lambda>t. t = ''http-01'' \<or> t = ''dns-01'' \<or> t = ''tls-alpn-01''),
      enabledIdentifiers = (\<lambda>t. t = ''dns'' \<or> t = ''ip'')\<rparr>"

text \<open>
  Vocabulary for the block lists: a DNS identifier; the error \<open>WillingToIssue\<close> returns
  for one identifier that is forbidden by policy; the policy authority after
  \<open>processIdentPolicy\<close>; a policy without one exact name, or without one high-risk name; the
  first label of a name; \<open>e\<close> being a label-wise suffix of \<open>x\<close>; and the three tests
  that \<open>WillingToIssue\<close> makes on a DNS name after a policy is loaded.
\<close>

definition dnsIdent :: "string \<Rightarrow> ACMEIdentifier" where
  "dnsIdent x = \<lparr>Type = TypeDNS, Value = x\<rparr>"

definition policyForbidden :: "string \<Rightarrow> error" where
  "policyForbidden x =
     Berr (RejectedIdentifierError ''Cannot issue for %q: %s''
             [ArgQ x, ArgM (detail errPolicyForbidden)])"

definition loadPolicy :: "lib \<Rightarrow> AuthorityImpl \<Rightarrow> blockedIdentsPolicy \<Rightarrow> AuthorityImpl" where
  "loadPolicy l pa policy = snd (processIdentPolicy l pa policy)"

definition withoutExact :: "string \<Rightarrow> blockedIdentsPolicy \<Rightarrow> blockedIdentsPolicy" where
  "withoutExact v policy = policy\<lparr>ExactBlockedNames := removeAll v (ExactBlockedNames policy)\<rparr>"

definition withoutHighRisk :: "string \<Rightarrow> blockedIdentsPolicy \<Rightarrow> blockedIdentsPolicy" where
  "withoutHighRisk e policy =
     policy\<lparr>HighRiskBlockedNames := removeAll e (HighRiskBlockedNames policy)\<rparr>"

definition firstLabel :: "string \<Rightarrow> string" where
  "firstLabel v = takeWhile (\<lambda>c. c \<noteq> CHR ''.'') v"

definition labelSuffix :: "string \<Rightarrow> string \<Rightarrow> bool" where
  "labelSuffix e x = (x = e \<or> HasSuffix x (CHR ''.'' # e))"

definition blockedDNS :: "AuthorityImpl \<Rightarrow> string \<Rightarrow> bool" where
  "blockedDNS pa x =
     ((Count x CHR ''*'' > 0 \<and> lookup (wildcardFqdnBlocklist pa) (TrimPrefix x ''*.'')) \<or>
      list_ex (\<lambda>i. lookup (domainBlocklist pa) (Join (drop i (Split x CHR ''.'')) CHR ''.''))
        [0..<length (Split x CHR ''.'')] \<or>
      lookup (fqdnBlocklist pa) x)"

text \<open>
  Vocabulary for the conversion of an authorization row: a bit of the challenge bitmap
  being set; the pending challenge that \<open>modelToAuthzPB\<close> makes for a bit position; what
  it means for a returned challenge to be the attempted one (its type, its status by the
  stored validation error, the attempt time, the token); and the bit positions whose
  challenge type is the attempted type.
\<close>

definition bitSet :: "authzModel \<Rightarrow> nat \<Rightarrow> bool" where
  "bitSet am pos = (drop_bit pos (amChallenges am) AND 1 = 1)"

definition pendingChallenge :: "salib \<Rightarrow> authzModel \<Rightarrow> nat \<Rightarrow> Challenge" where
  "pendingChallenge sl am pos =
     \<lparr>chType = uintToChallType (of_nat pos), chStatus = StatusPending,
      chToken = EncodeToString sl (amToken am), chError = None,
      chValidationrecords = [], chValidated = None\<rparr>"

definition attemptedChallenge :: "salib \<Rightarrow> authzModel \<Rightarrow> 8 word \<Rightarrow> Challenge \<Rightarrow> bool" where
  "attemptedChallenge sl am attempted c =
     (chType c = uintToChallType attempted \<and>
      chStatus c = (if amValidationError am \<noteq> [] then StatusInvalid else StatusValid) \<and>
      chValidated c = amAttemptedAt am \<and>
      chToken c = EncodeToString sl (amToken am))"

definition attemptedBit :: "authzModel \<Rightarrow> 8 word \<Rightarrow> nat \<Rightarrow> bool" where
  "attemptedBit am attempted pos =
     (bitSet am pos \<and> uintToChallType (of_nat pos) = uintToChallType attempted)"

text \<open>
  A finite sample of the libraries' behaviour for the conversion, and a sample row that
  offers \<open>http-01\<close>, \<open>dns-01\<close> and \<open>tls-alpn-01\<close>.
\<close>

definition sampleSalib :: salib where
  "sampleSalib =
     \<lparr>UnmarshalProblem = (\<lambda>s.
         if s = ''{}'' then Inr \<lparr>ProblemType = [], ProblemDetail = [], HttpStatus = 0\<rparr>
         else Inl (Errorf ''invalid character'' [])),
      ProblemDetailsToPB = (\<lambda>p. Inr (Some p)),
      UnmarshalRecords = (\<lambda>s.
         if s = ''[]'' \<or> s = ''null'' then Inr []
         else Inl (Errorf ''invalid character'' [])),
      ValidationRecordToPB = (\<lambda>r. Inr r),
      ParseURL = (\<lambda>u. Inl (Errorf ''parse %q: invalid URI'' [ArgQ u])),
      EncodeToString = (\<lambda>b. if b = ''abc'' then ''YWJj'' else [])\<rparr>"

definition sampleRow :: "8 word option \<Rightarrow> time option \<Rightarrow> string \<Rightarrow> authzModel" where
  "sampleRow attempted attemptedAt validationError =
     \<lparr>amID = 42, amIdentifierType = 0, amIdentifierValue = ''example.com'',
      amRegistrationID = 1, amCertificateProfileName = None, amStatus = 0, amExpires = 1000,
      amChallenges = 7, amAttempted = attempted, amAttemptedAt = attemptedAt,
      amToken = ''abc'', amValidationError = validationError, amValidationRecord = ''[]''\<rparr>"

text \<open>
  An error being an internal server error of \<open>berrors\<close>, and the two internal errors of
  \<open>statusForOrder\<close> about counts: the wrong number of authorization statuses, and the
  wrong number of valid authorizations.
\<close>

definition isInternalServerError :: "error \<Rightarrow> bool" where
  "isInternalServerError err =
     (case err of Berr b \<Rightarrow> etype b = InternalServer | Errorf f args \<Rightarrow> False)"

definition wrongNumberError :: "Order \<Rightarrow> authzValidity list \<Rightarrow> error" where
  "wrongNumberError order infos =
     InternalServerError
       (''getAuthorizationStatuses returned the wrong number of authorization statuses '' @
        ''(%d vs expected %d) for order %d'')
       [ArgD (int (length infos)), ArgD (int (length (V2Authorizations order))),
        ArgD (Id order)]"

definition notFullyAuthorizedError :: error where
  "notFullyAuthorizedError =
     InternalServerError
       (''Order has the incorrect number of valid authorizations & no pending, '' @
        ''deactivated or invalid authorizations'') []"

text \<open>
  A sample of the enumeration of limit names, an hour in nanoseconds, and a sample override
  of ten certificates per domain in a given period. \<open>rowKey\<close> is the sort key that
  \<open>lessRow\<close> compares: count and burst negated for the descending order, the period as
  its text.
\<close>

definition sampleNames :: names where
  "sampleNames =
     \<lparr>isValid = (\<lambda>n. 0 < n \<and> n < 9),
      NameString = (\<lambda>n.
         if n = 1 then ''NewRegistrationsPerIPAddress''
         else if n = 2 then ''NewRegistrationsPerIPv6Range''
         else if n = 3 then ''NewOrdersPerAccount''
         else if n = 4 then ''FailedAuthorizationsPerDomainPerAccount''
         else if n = 5 then ''CertificatesPerDomain''
         else if n = 6 then ''CertificatesPerDomainPerAccount''
         else if n = 7 then ''CertificatesPerFQDNSet''
         else if n = 8 then ''FailedAuthorizationsForPausingPerDomainPerAccount''
         else ''Unknown''),
      LimitNames = [],
      Create = (\<lambda>path. None)\<rparr>"

definition rowKey :: "row \<Rightarrow> string \<times> int \<times> int \<times> string \<times> string \<times> string" where
  "rowKey r = (rowName r, - rowCount r, - rowBurst r, rowPeriod r, rowComment r, rowId r)"

definition hour :: int where "hour = 3600000000000"

definition sampleOverride :: "int \<Rightarrow> Limit" where
  "sampleOverride period =
     \<lparr>limBurst = 10, limCount = 10, limPeriod = period, limName = 5, limComment = [],
      emissionInterval = period div 10, burstOffset = period div 10 * 10, isOverride = True\<rparr>"


section \<open>Properties of the order status\<close>

lemma uintToStatus_iff:
  "uintToStatus s = StatusPending \<longleftrightarrow> s = 0"
  "uintToStatus s = StatusValid \<longleftrightarrow> s = 1"
  "uintToStatus s = StatusInvalid \<longleftrightarrow> s = 2"
  "uintToStatus s = StatusDeactivated \<longleftrightarrow> s = 3"
  "uintToStatus s = StatusRevoked \<longleftrightarrow> s = 4"
  by (auto simp: uintToStatus_def Status_defs)

lemma countAuthz_unknown:
  "unknownStatus info \<Longrightarrow> countAuthz now info c = Inl (invalidStatusError info)"
  by (simp add: countAuthz_def unknownStatus_def uintToStatus_iff invalidStatusError_def)

lemma countAuthz_known:
  "\<not> unknownStatus info \<Longrightarrow>
   countAuthz now info c =
     Inr \<lparr>pendingAuthzs = pendingAuthzs c + (if avStatus info = 0 then 1 else 0),
          validAuthzs = validAuthzs c + (if avStatus info = 1 then 1 else 0),
          otherAuthzs = otherAuthzs c + (if avStatus info \<in> {2, 3, 4} then 1 else 0),
          expiredAuthzs = expiredAuthzs c + (if Before (avExpires info) now then 1 else 0)\<rparr>"
  by (auto simp: countAuthz_def unknownStatus_def uintToStatus_iff)

lemma countAuthzs_unknown:
  "find unknownStatus infos = Some info \<Longrightarrow>
   countAuthzs now infos c = Inl (invalidStatusError info)"
proof (induction infos arbitrary: c)
  case Nil
  then show ?case by simp
next
  case (Cons a infos)
  show ?case
  proof (cases "unknownStatus a")
    case True
    with Cons.prems show ?thesis by (simp add: countAuthz_unknown)
  next
    case False
    with Cons show ?thesis by (simp add: countAuthz_known)
  qed
qed

lemma countAuthzs_known:
  "find unknownStatus infos = None \<Longrightarrow>
   countAuthzs now infos c =
     Inr \<lparr>pendingAuthzs = pendingAuthzs c + int (length (filter (\<lambda>i. avStatus i = 0) infos)),
          validAuthzs = validAuthzs c + int (length (filter (\<lambda>i. avStatus i = 1) infos)),
          otherAuthzs = otherAuthzs c + int (length (filter (\<lambda>i. avStatus i \<in> {2, 3, 4}) infos)),
          expiredAuthzs = expiredAuthzs c + int (length (filter (\<lambda>i. Before (avExpires i) now) infos))\<rparr>"
proof (induction infos arbitrary: c)
  case Nil
  then show ?case by simp
next
  case (Cons a infos)
  from Cons.prems have a: "\<not> unknownStatus a" and r: "find unknownStatus infos = None"
    by (auto split: if_splits)
  show ?case
    by (simp add: countAuthz_known [OF a] Cons.IH [OF r])
qed

lemma statusForOrder_counted:
  assumes "Error order = None" and "\<not> Before (AsTime (Expires order)) now"
    and "length infos = length (V2Authorizations order)"
    and "find unknownStatus infos = None"
  shows "statusForOrder order infos now =
    (if list_ex (blockingAuthz now) infos then Inr StatusInvalid
     else if list_ex pendingAuthz infos then Inr StatusPending
     else if length (Identifiers order) \<noteq> length (filter (\<lambda>i. avStatus i = 1) infos) then
       Inl (InternalServerError
         (''Order has the incorrect number of valid authorizations & no pending, '' @
          ''deactivated or invalid authorizations'') [])
     else if CertificateSerial order \<noteq> [] then Inr StatusValid
     else if BeganProcessing order then Inr StatusProcessing
     else Inr StatusReady)"
proof -
  have b: "list_ex (blockingAuthz now) infos \<longleftrightarrow>
      filter (\<lambda>i. avStatus i \<in> {2, 3, 4}) infos \<noteq> [] \<or>
      filter (\<lambda>i. Before (avExpires i) now) infos \<noteq> []"
    by (auto simp: list_ex_iff blockingAuthz_def filter_empty_conv)
  have p: "list_ex pendingAuthz infos \<longleftrightarrow> filter (\<lambda>i. avStatus i = 0) infos \<noteq> []"
    by (auto simp: list_ex_iff pendingAuthz_def filter_empty_conv)
  show ?thesis
    unfolding b p statusForOrder_def
    by (simp add: assms countAuthzs_known Let_def)
qed

lemma all_valid_count:
  assumes "find unknownStatus infos = None"
    and "\<not> list_ex (blockingAuthz now) infos"
    and "\<not> list_ex pendingAuthz infos"
  shows "length (filter (\<lambda>i. avStatus i = 1) infos) = length infos"
proof -
  have "\<forall>i \<in> set infos. avStatus i = 1"
    using assms
    by (auto simp: find_None_iff unknownStatus_def list_ex_iff blockingAuthz_def pendingAuthz_def)
  then show ?thesis by simp
qed

text \<open>
  Claim C4, as amended. For an order whose list of authorization validities has the
  expected length (as many entries as the order has authorization ids, and as many as it
  has identifiers), \<open>statusForOrder\<close> is the following ordered case analysis: an order
  error yields invalid; an expired order yields invalid; otherwise the first authorization
  whose status code is none of the five known codes yields an internal error; otherwise any
  invalid, deactivated, revoked or expired authorization yields invalid; otherwise any
  pending authorization yields pending; otherwise (all valid) a non-empty certificate serial
  yields valid, \<open>BeganProcessing\<close> yields processing, and anything else ready.
\<close>

theorem statusForOrder_case_analysis:
  assumes "length infos = length (V2Authorizations order)"
    and "length (Identifiers order) = length infos"
  shows "statusForOrder order infos now =
    (if Error order \<noteq> None then Inr StatusInvalid
     else if Before (AsTime (Expires order)) now then Inr StatusInvalid
     else case find unknownStatus infos of
        Some info \<Rightarrow> Inl (invalidStatusError info)
      | None \<Rightarrow>
          if list_ex (blockingAuthz now) infos then Inr StatusInvalid
          else if list_ex pendingAuthz infos then Inr StatusPending
          else if CertificateSerial order \<noteq> [] then Inr StatusValid
          else if BeganProcessing order then Inr StatusProcessing
          else Inr StatusReady)"
proof (cases "Error order \<noteq> None \<or> Before (AsTime (Expires order)) now")
  case True
  then show ?thesis by (auto simp: statusForOrder_def)
next
  case live: False
  show ?thesis
  proof (cases "find unknownStatus infos")
    case (Some info)
    then show ?thesis
      using assms live by (simp add: statusForOrder_def countAuthzs_unknown)
  next
    case None
    show ?thesis
    proof (cases "list_ex (blockingAuthz now) infos \<or> list_ex pendingAuthz infos")
      case True
      then show ?thesis
        using live None assms(1) by (auto simp: statusForOrder_counted)
    next
      case False
      then have "length (filter (\<lambda>i. avStatus i = 1) infos) = length infos"
        using all_valid_count [OF None, of now] by blast
      then show ?thesis
        using live None assms False by (simp add: statusForOrder_counted)
    qed
  qed
qed

lemma isInternalServerError_simps:
  "isInternalServerError (InternalServerError f args)"
  "isInternalServerError (invalidStatusError info)"
  "isInternalServerError (wrongNumberError order infos)"
  "isInternalServerError notFullyAuthorizedError"
  by (simp_all add: isInternalServerError_def InternalServerError_def invalidStatusError_def
      wrongNumberError_def notFullyAuthorizedError_def)

lemma statusForOrder_error_or_expired:
  "Error order \<noteq> None \<or> Before (AsTime (Expires order)) now \<Longrightarrow>
   statusForOrder order infos now = Inr StatusInvalid"
  by (auto simp: statusForOrder_def)

lemma statusForOrder_wrong_number:
  "Error order = None \<Longrightarrow> \<not> Before (AsTime (Expires order)) now \<Longrightarrow>
   length infos \<noteq> length (V2Authorizations order) \<Longrightarrow>
   statusForOrder order infos now = Inl (wrongNumberError order infos)"
  by (simp add: statusForOrder_def wrongNumberError_def)

lemma statusForOrder_identifier_mismatch:
  assumes live: "Error order = None" "\<not> Before (AsTime (Expires order)) now"
    and len: "length infos = length (V2Authorizations order)"
    and ids: "length infos \<noteq> length (Identifiers order)"
  shows "statusForOrder order infos now =
     (case find unknownStatus infos of
        Some info \<Rightarrow> Inl (invalidStatusError info)
      | None \<Rightarrow>
          if list_ex (blockingAuthz now) infos then Inr StatusInvalid
          else if list_ex pendingAuthz infos then Inr StatusPending
          else Inl notFullyAuthorizedError)"
proof (cases "find unknownStatus infos")
  case (Some info)
  then show ?thesis
    using live len by (simp add: statusForOrder_def countAuthzs_unknown)
next
  case None
  show ?thesis
  proof (cases "list_ex (blockingAuthz now) infos \<or> list_ex pendingAuthz infos")
    case True
    then show ?thesis
      using live len None by (auto simp: statusForOrder_counted)
  next
    case False
    then have "length (filter (\<lambda>i. avStatus i = 1) infos) = length infos"
      using all_valid_count [OF None, of now] by blast
    then show ?thesis
      using live len None False ids
      by (simp add: statusForOrder_counted notFullyAuthorizedError_def)
  qed
qed

text \<open>
  Claim C2, as amended. An order with an error, or an expired order, is invalid whatever
  the counts are. For every other order: when the number of authorization validities
  differs from the number of the order's authorization ids, \<open>statusForOrder\<close> returns the
  internal error about the wrong number of statuses, whatever the statuses are; when these
  two agree and the number differs from the number of identifiers, it returns the internal
  error of the first unknown status code if there is one, else invalid if some
  authorization is invalid, deactivated, revoked or expired, else pending if some
  authorization is pending, else the internal error about the number of valid
  authorizations. So with either mismatch every error is an internal server error, invalid
  comes only with an invalid, deactivated, revoked or expired authorization, pending only
  with a pending one, and ready, processing and valid never come.
\<close>

theorem statusForOrder_count_mismatch:
  "(Error order \<noteq> None \<or> Before (AsTime (Expires order)) now \<longrightarrow>
      statusForOrder order infos now = Inr StatusInvalid) \<and>
   (Error order = None \<and> \<not> Before (AsTime (Expires order)) now \<longrightarrow>
      (length infos \<noteq> length (V2Authorizations order) \<longrightarrow>
         statusForOrder order infos now = Inl (wrongNumberError order infos)) \<and>
      (length infos = length (V2Authorizations order) \<and>
       length infos \<noteq> length (Identifiers order) \<longrightarrow>
         statusForOrder order infos now =
           (case find unknownStatus infos of
              Some info \<Rightarrow> Inl (invalidStatusError info)
            | None \<Rightarrow>
                if list_ex (blockingAuthz now) infos then Inr StatusInvalid
                else if list_ex pendingAuthz infos then Inr StatusPending
                else Inl notFullyAuthorizedError)) \<and>
      (length infos \<noteq> length (V2Authorizations order) \<or>
       length infos \<noteq> length (Identifiers order) \<longrightarrow>
         (case statusForOrder order infos now of
            Inl err \<Rightarrow> isInternalServerError err
          | Inr s \<Rightarrow> (s = StatusInvalid \<and> list_ex (blockingAuthz now) infos) \<or>
                     (s = StatusPending \<and> list_ex pendingAuthz infos))))"
proof (intro conjI impI)
  assume "Error order \<noteq> None \<or> Before (AsTime (Expires order)) now"
  then show "statusForOrder order infos now = Inr StatusInvalid"
    by (rule statusForOrder_error_or_expired)
next
  assume live: "Error order = None \<and> \<not> Before (AsTime (Expires order)) now"
  assume "length infos \<noteq> length (V2Authorizations order)"
  with live show "statusForOrder order infos now = Inl (wrongNumberError order infos)"
    by (simp add: statusForOrder_wrong_number)
next
  assume live: "Error order = None \<and> \<not> Before (AsTime (Expires order)) now"
  assume "length infos = length (V2Authorizations order) \<and>
       length infos \<noteq> length (Identifiers order)"
  with live show "statusForOrder order infos now =
           (case find unknownStatus infos of
              Some info \<Rightarrow> Inl (invalidStatusError info)
            | None \<Rightarrow>
                if list_ex (blockingAuthz now) infos then Inr StatusInvalid
                else if list_ex pendingAuthz infos then Inr StatusPending
                else Inl notFullyAuthorizedError)"
    by (simp add: statusForOrder_identifier_mismatch)
next
  assume live: "Error order = None \<and> \<not> Before (AsTime (Expires order)) now"
  assume mis: "length infos \<noteq> length (V2Authorizations order) \<or>
       length infos \<noteq> length (Identifiers order)"
  show "case statusForOrder order infos now of
            Inl err \<Rightarrow> isInternalServerError err
          | Inr s \<Rightarrow> (s = StatusInvalid \<and> list_ex (blockingAuthz now) infos) \<or>
                     (s = StatusPending \<and> list_ex pendingAuthz infos)"
  proof (cases "length infos = length (V2Authorizations order)")
    case False
    with live show ?thesis
      by (simp add: statusForOrder_wrong_number isInternalServerError_simps)
  next
    case True
    with mis have ids: "length infos \<noteq> length (Identifiers order)" by simp
    from live True ids have eq: "statusForOrder order infos now =
           (case find unknownStatus infos of
              Some info \<Rightarrow> Inl (invalidStatusError info)
            | None \<Rightarrow>
                if list_ex (blockingAuthz now) infos then Inr StatusInvalid
                else if list_ex pendingAuthz infos then Inr StatusPending
                else Inl notFullyAuthorizedError)"
      by (simp add: statusForOrder_identifier_mismatch)
    show ?thesis
      unfolding eq by (simp add: isInternalServerError_simps split: option.splits)
  qed
qed

theorem statusForOrder_case_analysis_witness:
  "statusForOrder sampleOrder [sampleAuthz 1, sampleAuthz 1] 50 = Inr StatusReady"
  using statusForOrder_case_analysis [of "[sampleAuthz 1, sampleAuthz 1]" sampleOrder 50]
  by (simp add: sampleOrder_def sampleAuthz_def unknownStatus_def blockingAuthz_def
      pendingAuthz_def Before_def AsTime_def)

text \<open>
  The case analysis as claim C4 words it fails where an invalid authorization stands beside
  one with an unknown status code: the loop returns the internal error of its default
  branch, not invalid.
\<close>

theorem statusForOrder_unknown_status_counterexample:
  "avStatus (sampleAuthz 2) = 2 \<and>
   length [sampleAuthz 2, sampleAuthz 9] = length (V2Authorizations sampleOrder) \<and>
   length [sampleAuthz 2, sampleAuthz 9] = length (Identifiers sampleOrder) \<and>
   statusForOrder sampleOrder [sampleAuthz 2, sampleAuthz 9] 50 =
     Inl (InternalServerError ''Order is in an invalid state. Authz has invalid status %d''
            [ArgD 9]) \<and>
   statusForOrder sampleOrder [sampleAuthz 2, sampleAuthz 9] 50 \<noteq> Inr StatusInvalid"
  by (simp add: sampleOrder_def sampleAuthz_def statusForOrder_def countAuthz_def
      uintToStatus_def Status_defs Before_def AsTime_def)

theorem statusForOrder_count_mismatch_witness:
  "statusForOrder sampleOrder [] 200 = Inr StatusInvalid \<and>
   statusForOrder sampleOrder [sampleAuthz 1] 50 = Inl (wrongNumberError sampleOrder [sampleAuthz 1]) \<and>
   isInternalServerError (wrongNumberError sampleOrder [sampleAuthz 1]) \<and>
   statusForOrder (sampleOrder\<lparr>V2Authorizations := [11]\<rparr>) [sampleAuthz 1] 50 =
     Inl notFullyAuthorizedError \<and>
   statusForOrder (sampleOrder\<lparr>V2Authorizations := [11]\<rparr>) [sampleAuthz 0] 50 =
     Inr StatusPending \<and>
   statusForOrder (sampleOrder\<lparr>V2Authorizations := [11]\<rparr>) [sampleAuthz 3] 50 =
     Inr StatusInvalid"
proof -
  let ?o1 = "sampleOrder\<lparr>V2Authorizations := [11]\<rparr>"
  have expired: "Error sampleOrder \<noteq> None \<or> Before (AsTime (Expires sampleOrder)) 200"
    by (simp add: sampleOrder_def Before_def AsTime_def)
  have live: "Error sampleOrder = None \<and> \<not> Before (AsTime (Expires sampleOrder)) 50"
    "Error ?o1 = None \<and> \<not> Before (AsTime (Expires ?o1)) 50"
    by (simp_all add: sampleOrder_def Before_def AsTime_def)
  have wrong: "length [sampleAuthz 1] \<noteq> length (V2Authorizations sampleOrder)"
    by (simp add: sampleOrder_def)
  have ids: "length [sampleAuthz s] = length (V2Authorizations ?o1) \<and>
      length [sampleAuthz s] \<noteq> length (Identifiers ?o1)" for s
    by (simp add: sampleOrder_def)
  have preds: "find unknownStatus [sampleAuthz 1] = None"
    "find unknownStatus [sampleAuthz 0] = None" "find unknownStatus [sampleAuthz 3] = None"
    "\<not> list_ex (blockingAuthz 50) [sampleAuthz 1]" "\<not> list_ex pendingAuthz [sampleAuthz 1]"
    "\<not> list_ex (blockingAuthz 50) [sampleAuthz 0]" "list_ex pendingAuthz [sampleAuthz 0]"
    "list_ex (blockingAuthz 50) [sampleAuthz 3]"
    by (simp_all add: unknownStatus_def blockingAuthz_def pendingAuthz_def sampleAuthz_def
        Before_def)
  note T0 = statusForOrder_count_mismatch [of sampleOrder 200 "[]", THEN conjunct1, rule_format,
      OF expired]
  note T1 = statusForOrder_count_mismatch [of sampleOrder 50 "[sampleAuthz 1]", THEN conjunct2,
      rule_format, OF live(1)]
  have a: "statusForOrder sampleOrder [sampleAuthz 1] 50 =
      Inl (wrongNumberError sampleOrder [sampleAuthz 1])"
    using T1 wrong by blast
  have b: "isInternalServerError (wrongNumberError sampleOrder [sampleAuthz 1])"
    using T1 wrong a by (metis sum.case(1))
  have c: "statusForOrder ?o1 [sampleAuthz s] 50 =
           (case find unknownStatus [sampleAuthz s] of
              Some info \<Rightarrow> Inl (invalidStatusError info)
            | None \<Rightarrow>
                if list_ex (blockingAuthz 50) [sampleAuthz s] then Inr StatusInvalid
                else if list_ex pendingAuthz [sampleAuthz s] then Inr StatusPending
                else Inl notFullyAuthorizedError)" for s
    using statusForOrder_count_mismatch [of ?o1 50 "[sampleAuthz s]", THEN conjunct2,
        rule_format, OF live(2)] ids [of s]
    by blast
  show ?thesis
    using T0 a b c [of 1] c [of 0] c [of 3] preds by simp
qed

text \<open>
  Claim C2 as worded fails: an expired order with no authorization validity at all is
  invalid, and a live order with two identifiers and one pending authorization is pending.
\<close>

theorem statusForOrder_count_mismatch_counterexample:
  "length ([] :: authzValidity list) \<noteq> length (Identifiers sampleOrder) \<and>
   length ([] :: authzValidity list) \<noteq> length (V2Authorizations sampleOrder) \<and>
   statusForOrder sampleOrder [] 200 = Inr StatusInvalid \<and>
   length [sampleAuthz 0] \<noteq> length (Identifiers (sampleOrder\<lparr>V2Authorizations := [11]\<rparr>)) \<and>
   statusForOrder (sampleOrder\<lparr>V2Authorizations := [11]\<rparr>) [sampleAuthz 0] 50 = Inr StatusPending"
  by (simp add: sampleOrder_def sampleAuthz_def statusForOrder_def countAuthz_def
      uintToStatus_def Status_defs Before_def AsTime_def)

section \<open>Properties of the challenge selection\<close>

text \<open>
  Claim C7. \<open>ChallengeTypesFor\<close> returns exactly \<open>[dns-01]\<close> for a DNS identifier whose
  value begins with \<open>*.\<close>, exactly \<open>[http-01, dns-01, tls-alpn-01]\<close> for every other DNS
  identifier, exactly \<open>[http-01, tls-alpn-01]\<close> for every IP identifier, and an error for
  an identifier of any other type.
\<close>

theorem ChallengeTypesFor_cases:
  "(Type ident = ''dns'' \<and> HasPrefix (Value ident) ''*.'' \<longrightarrow>
      ChallengeTypesFor ident = Inr [''dns-01'']) \<and>
   (Type ident = ''dns'' \<and> \<not> HasPrefix (Value ident) ''*.'' \<longrightarrow>
      ChallengeTypesFor ident = Inr [''http-01'', ''dns-01'', ''tls-alpn-01'']) \<and>
   (Type ident = ''ip'' \<longrightarrow>
      ChallengeTypesFor ident = Inr [''http-01'', ''tls-alpn-01'']) \<and>
   (Type ident \<noteq> ''dns'' \<and> Type ident \<noteq> ''ip'' \<longrightarrow>
      (\<exists>e. ChallengeTypesFor ident = Inl e))"
  by (simp add: ChallengeTypesFor_def TypeDNS_def TypeIP_def ChallengeType_defs)

theorem ChallengeTypesFor_cases_witness:
  "ChallengeTypesFor \<lparr>Type = ''dns'', Value = ''*.example.com''\<rparr> = Inr [''dns-01''] \<and>
   ChallengeTypesFor \<lparr>Type = ''dns'', Value = ''www.example.com''\<rparr> =
     Inr [''http-01'', ''dns-01'', ''tls-alpn-01''] \<and>
   ChallengeTypesFor \<lparr>Type = ''ip'', Value = ''192.0.2.1''\<rparr> =
     Inr [''http-01'', ''tls-alpn-01''] \<and>
   (\<exists>e. ChallengeTypesFor \<lparr>Type = ''email'', Value = ''a@example.com''\<rparr> = Inl e)"
  using ChallengeTypesFor_cases [of "\<lparr>Type = ''dns'', Value = ''*.example.com''\<rparr>"]
    ChallengeTypesFor_cases [of "\<lparr>Type = ''dns'', Value = ''www.example.com''\<rparr>"]
    ChallengeTypesFor_cases [of "\<lparr>Type = ''ip'', Value = ''192.0.2.1''\<rparr>"]
    ChallengeTypesFor_cases [of "\<lparr>Type = ''email'', Value = ''a@example.com''\<rparr>"]
  by (simp add: HasPrefix_def)

section \<open>Properties of domain validation\<close>

lemma set_Split: "set s \<subseteq> insert sep (\<Union> (set ` set (Split s sep)))"
proof (induction s)
  case Nil
  then show ?case by simp
next
  case (Cons c cs)
  have ne: "Split cs sep \<noteq> []" by (cases cs) auto
  then obtain x xs where sp: "Split cs sep = x # xs" by (cases "Split cs sep") auto
  show ?case using Cons sp by auto
qed

lemma checkLabels_None:
  "checkLabels l labels = None \<Longrightarrow> \<forall>label \<in> set labels. list_all dnsLabelCharacter label"
proof (induction labels)
  case Nil
  then show ?case by simp
next
  case (Cons a labels)
  from Cons.prems have a: "checkLabel l a = None" and r: "checkLabels l labels = None"
    by (auto split: option.splits)
  from a have "dnsLabelCharacterRegexp a"
    by (auto simp: checkLabel_def split: if_splits)
  then show ?case using Cons.IH [OF r] by (simp add: dnsLabelCharacterRegexp_def)
qed

lemma dnsLabelCharacter_not_upper: "dnsLabelCharacter c \<Longrightarrow> \<not> isUpper c"
  by (auto simp: dnsLabelCharacter_def isUpper_def less_eq_char_def)

lemma validNonWildcardDomain_lower:
  assumes "validNonWildcardDomain l d = None"
  shows "\<forall>c \<in> set d. \<not> isUpper c"
proof -
  from assms have "checkLabels l (Split d CHR ''.'') = None"
    by (auto simp: validNonWildcardDomain_def Let_def split: if_splits option.splits)
  then have labels: "\<forall>label \<in> set (Split d CHR ''.''). list_all dnsLabelCharacter label"
    by (rule checkLabels_None)
  show ?thesis
  proof
    fix c assume "c \<in> set d"
    then have "c = CHR ''.'' \<or> (\<exists>label \<in> set (Split d CHR ''.''). c \<in> set label)"
      using set_Split [of d "CHR ''.''"] by auto
    then show "\<not> isUpper c"
      using labels dnsLabelCharacter_not_upper 
      by (auto simp: list_all_iff isUpper_def)
  qed
qed

lemma ToLower_id: "\<forall>c \<in> set d. \<not> isUpper c \<Longrightarrow> ToLower d = d"
  by (induction d) (auto simp: ToLower_def toLowerByte_def)


lemma ValidDomain_wildcard:
  assumes "ValidDomain l d = None" and "\<not> Count d CHR ''*'' \<le> 0"
  shows "HasPrefix d ''*.'' \<and> validNonWildcardDomain l (TrimPrefix d ''*.'') = None"
proof -
  from assms have pre: "HasPrefix d ''*.''"
    unfolding ValidDomain_def by (simp split: if_splits)
  with assms show ?thesis
    unfolding ValidDomain_def Let_def by (simp split: if_splits option.splits)
qed


lemma HasPrefix_TrimPrefix: "HasPrefix d p \<Longrightarrow> d = p @ TrimPrefix d p"
  unfolding TrimPrefix_def HasPrefix_def
  by (simp, metis append_take_drop_id)

lemma wildcard_prefix_not_upper: "\<forall>c \<in> set ''*.''. \<not> isUpper c"
  by (simp add: isUpper_def)

text \<open>
  Claim C1, as amended. Every domain that \<open>ValidDomain\<close> accepts has no upper-case
  letter, so it is its own lower-case form and \<open>ValidDomain\<close> returns the same result on
  both. (A domain with an upper-case letter is therefore always rejected, also when its
  lower-case form is accepted.)
\<close>

theorem ValidDomain_accepts_only_lowercase:
  assumes "ValidDomain l d = None"
  shows "(\<forall>c \<in> set d. \<not> isUpper c) \<and> ToLower d = d \<and>
         ValidDomain l (ToLower d) = ValidDomain l d"
proof -
  have low: "\<forall>c \<in> set d. \<not> isUpper c"
  proof (cases "Count d CHR ''*'' \<le> 0")
    case True
    with assms have "validNonWildcardDomain l d = None" by (simp add: ValidDomain_def)
    then show ?thesis by (rule validNonWildcardDomain_lower)
  next
    case False
    from ValidDomain_wildcard [OF assms False] have pre: "HasPrefix d ''*.''"
      and base: "validNonWildcardDomain l (TrimPrefix d ''*.'') = None"
      by blast+
    have d: "set d = set ''*.'' \<union> set (TrimPrefix d ''*.'')"
      using HasPrefix_TrimPrefix [OF pre] by (metis set_append)
    show ?thesis
      unfolding d using validNonWildcardDomain_lower [OF base] wildcard_prefix_not_upper
      by blast
  qed
  then show ?thesis by (simp add: ToLower_id)
qed

theorem ValidDomain_accepts_only_lowercase_witness:
  "ValidDomain sampleLib ''example.com'' = None \<and>
   ToLower ''example.com'' = ''example.com'' \<and>
   ValidDomain sampleLib (ToLower ''example.com'') = ValidDomain sampleLib ''example.com''"
proof -
  have ok: "ValidDomain sampleLib ''example.com'' = None"
    by code_simp
  from ValidDomain_accepts_only_lowercase [OF ok] ok show ?thesis
    by simp
qed

text \<open>
  Claim C1 as worded fails: \<open>Example.com\<close> is rejected for its upper-case letter (the
  label expression admits \<open>a-z\<close> only), and its lower-case form is accepted.
\<close>

theorem ValidDomain_lowercasing_counterexample:
  "ToLower ''Example.com'' = ''example.com'' \<and>
   ValidDomain sampleLib ''Example.com'' = Some (Berr errInvalidDNSCharacter) \<and>
   ValidDomain sampleLib (ToLower ''Example.com'') = None"
  by code_simp

section \<open>Properties of IP validation\<close>

text \<open>
  Claim C9. \<open>ValidIP\<close> returns an error for a string that does not parse, for one that
  differs from the canonical rendering of the parsed, zone-stripped address, and so for one
  with a scope zone (the canonical rendering of the zone-stripped address parses back to
  that address, which has no zone); on a canonical input it returns what
  \<open>iana.IsReservedAddr\<close> returns for the address, so it succeeds exactly when the address
  is in no special-purpose registry.
\<close>

theorem ValidIP_canonical_only:
  "(ParseAddr l ip = None \<longrightarrow> ValidIP l ip = Some (Berr (notAnIP ip))) \<and>
   (\<forall>a. ParseAddr l ip = Some a \<longrightarrow>
      (AddrString l (WithZone a []) \<noteq> ip \<longrightarrow> ValidIP l ip = Some (Berr (notAnIP ip))) \<and>
      (Zone a \<noteq> [] \<and> ParseAddr l (AddrString l (WithZone a [])) = Some (WithZone a []) \<longrightarrow>
         ValidIP l ip = Some (Berr (notAnIP ip))) \<and>
      (ip \<noteq> [] \<and> AddrString l (WithZone a []) = ip \<longrightarrow>
         ValidIP l ip = IsReservedAddr l a \<and>
         (ValidIP l ip = None \<longleftrightarrow> IsReservedAddr l a = None)))"
proof (intro conjI allI impI)
  assume "ParseAddr l ip = None"
  then show "ValidIP l ip = Some (Berr (notAnIP ip))" by (simp add: ValidIP_def notAnIP_def)
next
  fix a assume p: "ParseAddr l ip = Some a"
  {
    assume "AddrString l (WithZone a []) \<noteq> ip"
    with p show "ValidIP l ip = Some (Berr (notAnIP ip))"
      by (simp add: ValidIP_def notAnIP_def)
  next
    assume z: "Zone a \<noteq> [] \<and> ParseAddr l (AddrString l (WithZone a [])) = Some (WithZone a [])"
    have "AddrString l (WithZone a []) \<noteq> ip"
    proof
      assume "AddrString l (WithZone a []) = ip"
      with z p have "WithZone a [] = a" by simp
      with z show False by (cases a) (simp_all add: WithZone_def Zone_def)
    qed
    with p show "ValidIP l ip = Some (Berr (notAnIP ip))"
      by (simp add: ValidIP_def notAnIP_def)
  next
    assume c: "ip \<noteq> [] \<and> AddrString l (WithZone a []) = ip"
    with p show r: "ValidIP l ip = IsReservedAddr l a" by (simp add: ValidIP_def)
    then show "ValidIP l ip = None \<longleftrightarrow> IsReservedAddr l a = None" by simp
  }
qed

theorem ValidIP_canonical_only_witness:
  "ValidIP sampleLib ''8.8.8.8'' = None \<and>
   ValidIP sampleLib ''127.0.0.1'' \<noteq> None \<and>
   ValidIP sampleLib ''fe80::1%eth0'' = Some (Berr errIPInvalid) \<and>
   ValidIP sampleLib ''2001:4860:4860:0:0:0:0:8888'' = Some (Berr errIPInvalid) \<and>
   ValidIP sampleLib ''example.com'' \<noteq> None"
proof -
  have a: "ParseAddr sampleLib ''8.8.8.8'' = Some (Addr4 0x08080808) \<and>
      AddrString sampleLib (WithZone (Addr4 0x08080808) []) = ''8.8.8.8'' \<and>
      IsReservedAddr sampleLib (Addr4 0x08080808) = None"
    by code_simp
  have b: "ParseAddr sampleLib ''127.0.0.1'' = Some (Addr4 0x7F000001) \<and>
      AddrString sampleLib (WithZone (Addr4 0x7F000001) []) = ''127.0.0.1'' \<and>
      IsReservedAddr sampleLib (Addr4 0x7F000001) \<noteq> None"
    by code_simp
  have c: "ParseAddr sampleLib ''fe80::1%eth0'' =
        Some (Addr6 0xFE800000000000000000000000000001 ''eth0'') \<and>
      Zone (Addr6 0xFE800000000000000000000000000001 ''eth0'') \<noteq> [] \<and>
      ParseAddr sampleLib
        (AddrString sampleLib (WithZone (Addr6 0xFE800000000000000000000000000001 ''eth0'') [])) =
        Some (WithZone (Addr6 0xFE800000000000000000000000000001 ''eth0'') [])"
    by code_simp
  have d: "ParseAddr sampleLib ''2001:4860:4860:0:0:0:0:8888'' =
        Some (Addr6 0x20014860486000000000000000008888 []) \<and>
      AddrString sampleLib (WithZone (Addr6 0x20014860486000000000000000008888 []) []) \<noteq>
        ''2001:4860:4860:0:0:0:0:8888''"
    by code_simp
  have e: "ParseAddr sampleLib ''example.com'' = None"
    by code_simp
  show ?thesis
    unfolding errIPInvalid_def
    using ValidIP_canonical_only [of sampleLib "''8.8.8.8''"] a
      ValidIP_canonical_only [of sampleLib "''127.0.0.1''"] b
      ValidIP_canonical_only [of sampleLib "''fe80::1%eth0''"] c
      ValidIP_canonical_only [of sampleLib "''2001:4860:4860:0:0:0:0:8888''"] d
      ValidIP_canonical_only [of sampleLib "''example.com''"] e
    by (simp add: notAnIP_def errIPInvalid_def)
qed


section \<open>Properties of policy loading\<close>

lemma addNames_apply: "addNames vs m k = (if k \<in> set vs then Some True else m k)"
  unfolding addNames_def by (induction vs arbitrary: m) auto

lemma SplitN2_length: "length (SplitN2 v sep) < 2 \<longleftrightarrow> sep \<notin> set v"
  by (simp add: SplitN2_def)

lemma SplitN2_parent: "CHR ''.'' \<in> set v \<Longrightarrow> SplitN2 v CHR ''.'' ! Suc 0 = parentName v"
  by (simp add: SplitN2_def parentName_def)

lemma exactLoop_Inr:
  "exactLoop vs (e, w) = Inr (e', w') \<Longrightarrow>
     (\<forall>v \<in> set vs. CHR ''.'' \<in> set v) \<and>
     (\<forall>k. e' k = (if k \<in> set vs then Some True else e k)) \<and>
     (\<forall>k. w' k = (if k \<in> parentName ` set vs then Some True else w k))"
proof (induction vs arbitrary: e w)
  case Nil
  then show ?case by simp
next
  case (Cons v vs)
  from Cons.prems have dot: "CHR ''.'' \<in> set v"
    by (auto simp: Let_def SplitN2_length split: if_splits)
  with Cons.prems have
    "exactLoop vs (e(v \<mapsto> True), w(parentName v \<mapsto> True)) = Inr (e', w')"
    by (simp add: Let_def SplitN2_length SplitN2_parent)
  from Cons.IH [OF this] dot show ?case by auto
qed

lemma exactLoop_Inl:
  "(\<exists>err. exactLoop vs (e, w) = Inl err) \<longleftrightarrow> (\<exists>v \<in> set vs. CHR ''.'' \<notin> set v)"
proof (induction vs arbitrary: e w)
  case Nil
  then show ?case by simp
next
  case (Cons v vs)
  show ?case
  proof (cases "CHR ''.'' \<in> set v")
    case True
    then show ?thesis using Cons.IH by (simp add: Let_def SplitN2_length)
  next
    case False
    then show ?thesis by (simp add: Let_def SplitN2_length)
  qed
qed

lemma prefixLoop_Inr:
  "prefixLoop l ps acc = Inr r \<Longrightarrow>
     (\<forall>p \<in> set ps. ParsePrefix l p \<noteq> None) \<and> map Some r = map Some acc @ map (ParsePrefix l) ps"
proof (induction ps arbitrary: acc)
  case Nil
  then show ?case by simp
next
  case (Cons p ps)
  from Cons.prems obtain x where x: "ParsePrefix l p = Some x"
    and r: "prefixLoop l ps (acc @ [x]) = Inr r"
    by (auto split: option.splits)
  from Cons.IH [OF r] x show ?case by auto
qed

lemma prefixLoop_Inl:
  "(\<exists>err. prefixLoop l ps acc = Inl err) \<longleftrightarrow> (\<exists>p \<in> set ps. ParsePrefix l p = None)"
proof (induction ps arbitrary: acc)
  case Nil
  then show ?case by simp
next
  case (Cons p ps)
  then show ?case by (cases "ParsePrefix l p") auto
qed

lemma processIdentPolicy_error:
  "processIdentPolicy l pa policy = (Some err, pa') \<Longrightarrow> pa' = pa"
  by (auto simp: processIdentPolicy_def Let_def split: sum.splits prod.splits)

lemma processIdentPolicy_error_iff:
  "fst (processIdentPolicy l pa policy) \<noteq> None \<longleftrightarrow>
     (\<exists>v \<in> set (ExactBlockedNames policy). CHR ''.'' \<notin> set v) \<or>
     (\<exists>p \<in> set (AdminBlockedPrefixes policy). ParsePrefix l p = None)"
proof (cases "exactLoop (ExactBlockedNames policy) (Map.empty, Map.empty)")
  case (Inl err)
  then have "\<exists>v \<in> set (ExactBlockedNames policy). CHR ''.'' \<notin> set v"
    using exactLoop_Inl by blast
  with Inl show ?thesis by (simp add: processIdentPolicy_def)
next
  case (Inr ew)
  then have no: "\<not> (\<exists>v \<in> set (ExactBlockedNames policy). CHR ''.'' \<notin> set v)"
    using exactLoop_Inl [of "ExactBlockedNames policy" Map.empty Map.empty] by auto
  show ?thesis
  proof (cases "prefixLoop l (AdminBlockedPrefixes policy) []")
    case (Inl err)
    then have "\<exists>p \<in> set (AdminBlockedPrefixes policy). ParsePrefix l p = None"
      using prefixLoop_Inl by blast
    with Inl Inr show ?thesis by (simp add: processIdentPolicy_def split: prod.splits)
  next
    case r: (Inr ps)
    then have "\<not> (\<exists>p \<in> set (AdminBlockedPrefixes policy). ParsePrefix l p = None)"
      using prefixLoop_Inl [of l "AdminBlockedPrefixes policy" "[]"] by auto
    with no r Inr show ?thesis by (simp add: processIdentPolicy_def split: prod.splits)
  qed
qed

lemma processIdentPolicy_tables:
  assumes "processIdentPolicy l pa policy = (None, pa')"
  shows "domainBlocklist pa' \<noteq> None \<and> fqdnBlocklist pa' \<noteq> None \<and>
         wildcardFqdnBlocklist pa' \<noteq> None \<and>
         (\<forall>k. lookup (domainBlocklist pa') k \<longleftrightarrow>
            k \<in> set (HighRiskBlockedNames policy) \<union> set (AdminBlockedNames policy)) \<and>
         (\<forall>k. lookup (fqdnBlocklist pa') k \<longleftrightarrow> k \<in> set (ExactBlockedNames policy)) \<and>
         (\<forall>k. lookup (wildcardFqdnBlocklist pa') k \<longleftrightarrow>
            k \<in> parentName ` set (ExactBlockedNames policy)) \<and>
         map Some (ipPrefixBlocklist pa') = map (ParsePrefix l) (AdminBlockedPrefixes policy) \<and>
         enabledIdentifiers pa' = enabledIdentifiers pa \<and>
         enabledChallenges pa' = enabledChallenges pa \<and> log pa' = log pa \<and>
         (\<forall>v \<in> set (ExactBlockedNames policy). CHR ''.'' \<in> set v)"
proof -
  from assms obtain e w ps where
    ex: "exactLoop (ExactBlockedNames policy) (Map.empty, Map.empty) = Inr (e, w)"
    and pl: "prefixLoop l (AdminBlockedPrefixes policy) [] = Inr ps"
    and pa': "pa' = pa\<lparr>domainBlocklist :=
                 Some (addNames (AdminBlockedNames policy)
                        (addNames (HighRiskBlockedNames policy) Map.empty)),
               fqdnBlocklist := Some e, wildcardFqdnBlocklist := Some w,
               ipPrefixBlocklist := ps\<rparr>"
    by (auto simp: processIdentPolicy_def Let_def split: sum.splits prod.splits)
  note E = exactLoop_Inr [OF ex]
  note P = prefixLoop_Inr [OF pl]
  show ?thesis
    unfolding pa' using E P by (simp add: lookup_def addNames_apply)
qed

text \<open>
  Claim C10. When \<open>LoadIdentPolicyFile\<close> returns an error the four block lists are
  unchanged, and when \<open>processIdentPolicy\<close> returns one the policy authority is
  unchanged; on success all four tables are the new ones, which hold exactly the names and
  prefixes of the policy. The errors are those of the claim: an unreadable or malformed
  file, an empty \<open>HighRiskBlockedNames\<close> or \<open>ExactBlockedNames\<close>, an exact name without
  a dot, a prefix that does not parse.
\<close>

theorem LoadIdentPolicyFile_error_keeps_blocklists:
  "(fst (LoadIdentPolicyFile l pa f) \<noteq> None \<longrightarrow>
      blocklists (snd (LoadIdentPolicyFile l pa f)) = blocklists pa) \<and>
   (fst (processIdentPolicy l pa policy) \<noteq> None \<longrightarrow>
      snd (processIdentPolicy l pa policy) = pa) \<and>
   (fst (processIdentPolicy l pa policy) = None \<longrightarrow>
      (let pa' = snd (processIdentPolicy l pa policy) in
       domainBlocklist pa' \<noteq> None \<and> fqdnBlocklist pa' \<noteq> None \<and>
       wildcardFqdnBlocklist pa' \<noteq> None \<and>
       (\<forall>k. lookup (domainBlocklist pa') k \<longleftrightarrow>
          k \<in> set (HighRiskBlockedNames policy) \<union> set (AdminBlockedNames policy)) \<and>
       (\<forall>k. lookup (fqdnBlocklist pa') k \<longleftrightarrow> k \<in> set (ExactBlockedNames policy)) \<and>
       (\<forall>k. lookup (wildcardFqdnBlocklist pa') k \<longleftrightarrow>
          k \<in> parentName ` set (ExactBlockedNames policy)) \<and>
       map Some (ipPrefixBlocklist pa') = map (ParsePrefix l) (AdminBlockedPrefixes policy))) \<and>
   (fst (processIdentPolicy l pa policy) \<noteq> None \<longleftrightarrow>
      (\<exists>v \<in> set (ExactBlockedNames policy). CHR ''.'' \<notin> set v) \<or>
      (\<exists>p \<in> set (AdminBlockedPrefixes policy). ParsePrefix l p = None)) \<and>
   (fst (LoadIdentPolicyFile l pa f) \<noteq> None \<longleftrightarrow>
      (case ReadFile l f of
         Inl err \<Rightarrow> True
       | Inr configBytes \<Rightarrow>
           (case Unmarshal l configBytes of
              Inl err \<Rightarrow> True
            | Inr p \<Rightarrow>
                HighRiskBlockedNames p = [] \<or> ExactBlockedNames p = [] \<or>
                (\<exists>v \<in> set (ExactBlockedNames p). CHR ''.'' \<notin> set v) \<or>
                (\<exists>x \<in> set (AdminBlockedPrefixes p). ParsePrefix l x = None))))"
proof (intro conjI)
  show "fst (LoadIdentPolicyFile l pa f) \<noteq> None \<longrightarrow>
      blocklists (snd (LoadIdentPolicyFile l pa f)) = blocklists pa"
  proof
    assume err: "fst (LoadIdentPolicyFile l pa f) \<noteq> None"
    show "blocklists (snd (LoadIdentPolicyFile l pa f)) = blocklists pa"
    proof (cases "ReadFile l f")
      case (Inl e)
      then show ?thesis by (simp add: LoadIdentPolicyFile_def)
    next
      case bytes: (Inr configBytes)
      define pa1 where "pa1 = pa\<lparr>log := log pa @
                      [Sprintf ''loading identifier policy, sha256: %s''
                         [ArgS (Sha256Hex l configBytes)]]\<rparr>"
      have same: "blocklists pa1 = blocklists pa" by (simp add: pa1_def blocklists_def)
      show ?thesis
      proof (cases "Unmarshal l configBytes")
        case (Inl e)
        with bytes same show ?thesis by (simp add: LoadIdentPolicyFile_def pa1_def Let_def)
      next
        case (Inr p)
        show ?thesis
        proof (cases "HighRiskBlockedNames p = [] \<or> ExactBlockedNames p = []")
          case True
          with bytes Inr same show ?thesis
            by (auto simp: LoadIdentPolicyFile_def pa1_def Let_def)
        next
          case False
          with bytes Inr have eq: "LoadIdentPolicyFile l pa f = processIdentPolicy l pa1 p"
            by (simp add: LoadIdentPolicyFile_def pa1_def Let_def)
          with err obtain e pa' where "processIdentPolicy l pa1 p = (Some e, pa')"
            by (cases "processIdentPolicy l pa1 p") auto
          with processIdentPolicy_error [OF this] eq same show ?thesis by simp
        qed
      qed
    qed
  qed
next
  show "fst (processIdentPolicy l pa policy) \<noteq> None \<longrightarrow> snd (processIdentPolicy l pa policy) = pa"
    using processIdentPolicy_error [of l pa policy]
    by (cases "processIdentPolicy l pa policy") auto
next
  show "fst (processIdentPolicy l pa policy) = None \<longrightarrow>
      (let pa' = snd (processIdentPolicy l pa policy) in
       domainBlocklist pa' \<noteq> None \<and> fqdnBlocklist pa' \<noteq> None \<and>
       wildcardFqdnBlocklist pa' \<noteq> None \<and>
       (\<forall>k. lookup (domainBlocklist pa') k \<longleftrightarrow>
          k \<in> set (HighRiskBlockedNames policy) \<union> set (AdminBlockedNames policy)) \<and>
       (\<forall>k. lookup (fqdnBlocklist pa') k \<longleftrightarrow> k \<in> set (ExactBlockedNames policy)) \<and>
       (\<forall>k. lookup (wildcardFqdnBlocklist pa') k \<longleftrightarrow>
          k \<in> parentName ` set (ExactBlockedNames policy)) \<and>
       map Some (ipPrefixBlocklist pa') = map (ParsePrefix l) (AdminBlockedPrefixes policy))"
    using processIdentPolicy_tables [of l pa policy "snd (processIdentPolicy l pa policy)"]
    by (cases "processIdentPolicy l pa policy") (simp add: Let_def)
next
  show "fst (processIdentPolicy l pa policy) \<noteq> None \<longleftrightarrow>
      (\<exists>v \<in> set (ExactBlockedNames policy). CHR ''.'' \<notin> set v) \<or>
      (\<exists>p \<in> set (AdminBlockedPrefixes policy). ParsePrefix l p = None)"
    by (rule processIdentPolicy_error_iff)
next
  show "fst (LoadIdentPolicyFile l pa f) \<noteq> None \<longleftrightarrow>
      (case ReadFile l f of
         Inl err \<Rightarrow> True
       | Inr configBytes \<Rightarrow>
           (case Unmarshal l configBytes of
              Inl err \<Rightarrow> True
            | Inr p \<Rightarrow>
                HighRiskBlockedNames p = [] \<or> ExactBlockedNames p = [] \<or>
                (\<exists>v \<in> set (ExactBlockedNames p). CHR ''.'' \<notin> set v) \<or>
                (\<exists>x \<in> set (AdminBlockedPrefixes p). ParsePrefix l x = None)))"
  proof (cases "ReadFile l f")
    case (Inl e)
    then show ?thesis by (simp add: LoadIdentPolicyFile_def)
  next
    case bytes: (Inr configBytes)
    show ?thesis
    proof (cases "Unmarshal l configBytes")
      case (Inl e)
      with bytes show ?thesis by (simp add: LoadIdentPolicyFile_def Let_def)
    next
      case (Inr p)
      show ?thesis
      proof (cases "HighRiskBlockedNames p = [] \<or> ExactBlockedNames p = []")
        case True
        with bytes Inr show ?thesis
          by (auto simp: LoadIdentPolicyFile_def Let_def)
      next
        case False
        with bytes Inr have "LoadIdentPolicyFile l pa f =
            processIdentPolicy l
              (pa\<lparr>log := log pa @
                  [Sprintf ''loading identifier policy, sha256: %s''
                     [ArgS (Sha256Hex l configBytes)]]\<rparr>) p"
          by (simp add: LoadIdentPolicyFile_def Let_def)
        with bytes Inr False show ?thesis
          using processIdentPolicy_error_iff by simp
      qed
    qed
  qed
qed

theorem LoadIdentPolicyFile_error_keeps_blocklists_witness:
  "fst (LoadIdentPolicyFile sampleLib samplePA ''onelabel.yaml'') \<noteq> None \<and>
   blocklists (snd (LoadIdentPolicyFile sampleLib samplePA ''onelabel.yaml'')) =
     blocklists samplePA \<and>
   fst (processIdentPolicy sampleLib samplePA samplePolicy) = None \<and>
   lookup (fqdnBlocklist (snd (processIdentPolicy sampleLib samplePA samplePolicy)))
     ''hi.example.com'' \<and>
   lookup (wildcardFqdnBlocklist (snd (processIdentPolicy sampleLib samplePA samplePolicy)))
     ''example.com''"
proof -
  have bad: "fst (LoadIdentPolicyFile sampleLib samplePA ''onelabel.yaml'') \<noteq> None"
    by code_simp
  have ok: "fst (processIdentPolicy sampleLib samplePA samplePolicy) = None"
    by code_simp
  have names: "''hi.example.com'' \<in> set (ExactBlockedNames samplePolicy) \<and>
      parentName ''hi.example.com'' = ''example.com''"
    by code_simp
  then have "''example.com'' \<in> parentName ` set (ExactBlockedNames samplePolicy)"
    by (metis imageI)
  with bad ok names show ?thesis
    using LoadIdentPolicyFile_error_keeps_blocklists
      [of sampleLib samplePA "''onelabel.yaml''" samplePolicy]
    by (simp add: Let_def)
qed

section \<open>Properties of the block lists\<close>

lemma combineSubErrors_Nil: "combineSubErrors [] = None"
  by (simp add: combineSubErrors_def)

lemma combineSubErrors_single:
  "combineSubErrors [se] =
     Some (Berr (RejectedIdentifierError ''Cannot issue for %q: %s''
                   [ArgQ (Value (fst se)), ArgM (detail (snd se))]))"
  by (simp add: combineSubErrors_def)

lemma WillingToIssue_single:
  "WillingToIssue l pa [ident] =
     (case WellFormedIdentifiers l [ident] of
        Some err \<Rightarrow> Some err
      | None \<Rightarrow> combineSubErrors (willingToIssueIdentifier l pa ident))"
  by (simp add: WillingToIssue_def split: option.splits)

lemma WellFormedIdentifiers_dns:
  "WellFormedIdentifiers l [dnsIdent x] = None \<longleftrightarrow> ValidDomain l x = None"
  by (cases "ValidDomain l x")
     (simp_all add: WellFormedIdentifiers_def wellFormedIdentifier_def dnsIdent_def
        combineSubErrors_Nil combineSubErrors_single)

lemma willingToIssueIdentifier_length:
  "length (willingToIssueIdentifier l pa ident) \<le> 1"
  by (simp add: willingToIssueIdentifier_def split: option.splits)

lemma willingToIssueIdentifier_dns:
  assumes "domainBlocklist pa \<noteq> None" and "wildcardFqdnBlocklist pa \<noteq> None"
    and "IdentifierTypeEnabled pa TypeDNS"
  shows "willingToIssueIdentifier l pa (dnsIdent x) =
     (if blockedDNS pa x then [subError (dnsIdent x) (Berr errPolicyForbidden)] else [])"
proof -
  from assms obtain d w where d: "domainBlocklist pa = Some d"
    and w: "wildcardFqdnBlocklist pa = Some w"
    by auto
  have wild: "checkWildcardBlocklist pa (TrimPrefix x ''*.'') =
      (if lookup (wildcardFqdnBlocklist pa) (TrimPrefix x ''*.'')
       then Some (Berr errPolicyForbidden) else None)"
    by (simp add: checkWildcardBlocklist_def w)
  have lists: "checkBlocklists l pa (dnsIdent x) =
      (if list_ex (\<lambda>i. lookup (domainBlocklist pa) (Join (drop i (Split x CHR ''.'')) CHR ''.''))
            [0..<length (Split x CHR ''.'')] \<or> lookup (fqdnBlocklist pa) x
       then Some (Berr errPolicyForbidden) else None)"
    by (simp add: checkBlocklists_def d dnsIdent_def Let_def)
  have ty: "Type (dnsIdent x) = TypeDNS" and va: "Value (dnsIdent x) = x"
    by (simp_all add: dnsIdent_def)
  show ?thesis
    unfolding willingToIssueIdentifier_def ty va wild lists blockedDNS_def
    using assms(3) by simp
qed

lemma willingToIssueIdentifier_disabled:
  "\<not> IdentifierTypeEnabled pa TypeDNS \<Longrightarrow>
   willingToIssueIdentifier l pa (dnsIdent x) =
     [subError (dnsIdent x)
        (Berr (RejectedIdentifierError ''The ACME server has disabled this identifier type'' []))]"
  by (simp add: willingToIssueIdentifier_def dnsIdent_def)

lemma subError_forbidden:
  "combineSubErrors [subError (dnsIdent x) (Berr errPolicyForbidden)] = Some (policyForbidden x)"
  by (simp add: combineSubErrors_single subError_def policyForbidden_def dnsIdent_def)

text \<open>A blocked name is rejected, and as forbidden by policy when nothing else is wrong.\<close>

lemma blocked_rejected:
  assumes "domainBlocklist pa \<noteq> None" and "wildcardFqdnBlocklist pa \<noteq> None"
    and "blockedDNS pa x"
  shows "WillingToIssue l pa [dnsIdent x] \<noteq> None \<and>
         (WellFormedIdentifiers l [dnsIdent x] = None \<and> IdentifierTypeEnabled pa TypeDNS \<longrightarrow>
            WillingToIssue l pa [dnsIdent x] = Some (policyForbidden x))"
proof (cases "WellFormedIdentifiers l [dnsIdent x]")
  case (Some e)
  then show ?thesis by (simp add: WillingToIssue_single)
next
  case None
  show ?thesis
  proof (cases "IdentifierTypeEnabled pa TypeDNS")
    case True
    with assms None show ?thesis
      by (simp add: WillingToIssue_single willingToIssueIdentifier_dns subError_forbidden)
  next
    case False
    with None show ?thesis
      by (simp add: WillingToIssue_single willingToIssueIdentifier_disabled
          combineSubErrors_single)
  qed
qed

text \<open>Two policy authorities that block the same well-formed names answer alike.\<close>

lemma same_blocking_same_answer:
  assumes "domainBlocklist pa \<noteq> None" and "wildcardFqdnBlocklist pa \<noteq> None"
    and "domainBlocklist pb \<noteq> None" and "wildcardFqdnBlocklist pb \<noteq> None"
    and "enabledIdentifiers pa = enabledIdentifiers pb"
    and "ValidDomain l x = None \<Longrightarrow> blockedDNS pa x = blockedDNS pb x"
  shows "WillingToIssue l pa [dnsIdent x] = WillingToIssue l pb [dnsIdent x]"
proof (cases "WellFormedIdentifiers l [dnsIdent x]")
  case (Some e)
  then show ?thesis by (simp add: WillingToIssue_single)
next
  case None
  then have b: "blockedDNS pa x = blockedDNS pb x"
    using assms(6) by (simp add: WellFormedIdentifiers_dns)
  show ?thesis
  proof (cases "IdentifierTypeEnabled pa TypeDNS")
    case True
    then have "IdentifierTypeEnabled pb TypeDNS"
      using assms(5) by (simp add: IdentifierTypeEnabled_def)
    with True assms(1-4) b None show ?thesis
      by (simp add: WillingToIssue_single willingToIssueIdentifier_dns)
  next
    case False
    then have "\<not> IdentifierTypeEnabled pb TypeDNS"
      using assms(5) by (simp add: IdentifierTypeEnabled_def)
    with False None show ?thesis
      by (simp add: WillingToIssue_single willingToIssueIdentifier_disabled)
  qed
qed


lemma Split_not_Nil: "Split s sep \<noteq> []"
  by (cases s) auto

lemma Join_Cons: "ys \<noteq> [] \<Longrightarrow> Join (x # ys) sep = x @ sep # Join ys sep"
  by (cases ys) auto

lemma Join_Split: "Join (Split s sep) sep = s"
proof (induction s)
  case Nil
  then show ?case by simp
next
  case (Cons c cs)
  obtain x xs where sp: "Split cs sep = x # xs"
    using Split_not_Nil [of cs sep] by (cases "Split cs sep") auto
  show ?case
  proof (cases "c = sep")
    case True
    then show ?thesis using Cons by (simp add: Join_Cons Split_not_Nil)
  next
    case False
    from Cons sp have "Join (x # xs) sep = cs" by simp
    then have "Join ((c # x) # xs) sep = c # cs"
      by (cases xs) auto
    with False sp show ?thesis by simp
  qed
qed

lemma Split_append: "Split (p @ sep # e) sep = Split p sep @ Split e sep"
proof (induction p)
  case Nil
  then show ?case by simp
next
  case (Cons c cs)
  obtain x xs where sp: "Split cs sep = x # xs"
    using Split_not_Nil [of cs sep] by (cases "Split cs sep") auto
  with Cons show ?case by simp
qed

lemma Join_append:
  "xs \<noteq> [] \<Longrightarrow> ys \<noteq> [] \<Longrightarrow> Join (xs @ ys) sep = Join xs sep @ sep # Join ys sep"
proof (induction xs)
  case Nil
  then show ?case by simp
next
  case (Cons x xs)
  show ?case
  proof (cases "xs = []")
    case True
    with Cons.prems show ?thesis by (simp add: Join_Cons)
  next
    case False
    with Cons show ?thesis by (simp add: Join_Cons)
  qed
qed

lemma HasSuffix_append: "HasSuffix (p @ e) e"
  by (simp add: HasSuffix_def)

lemma HasSuffixD: "HasSuffix x e \<Longrightarrow> \<exists>p. x = p @ e"
  unfolding HasSuffix_def by (metis append_take_drop_id)

lemma suffix_of_Split:
  assumes "i < length (Split x sep)"
  shows "Join (drop i (Split x sep)) sep = x \<or> HasSuffix x (sep # Join (drop i (Split x sep)) sep)"
proof (cases "i = 0")
  case True
  then show ?thesis by (simp add: Join_Split)
next
  case False
  let ?ls = "Split x sep"
  from False assms have t: "take i ?ls \<noteq> []" and d: "drop i ?ls \<noteq> []"
    by auto
  have "x = Join (take i ?ls @ drop i ?ls) sep"
    by (simp add: Join_Split)
  also have "\<dots> = Join (take i ?ls) sep @ sep # Join (drop i ?ls) sep"
    using t d by (rule Join_append)
  finally have "x = Join (take i ?ls) sep @ sep # Join (drop i ?ls) sep" .
  then have "HasSuffix x (sep # Join (drop i ?ls) sep)"
    using HasSuffix_append by metis
  then show ?thesis ..
qed

lemma labelSuffix_of_Split:
  "i < length (Split x CHR ''.'') \<Longrightarrow> labelSuffix (Join (drop i (Split x CHR ''.'')) CHR ''.'') x"
  using suffix_of_Split [of i x "CHR ''.''"] by (auto simp: labelSuffix_def)

lemma labelSuffix_in_Split:
  assumes "labelSuffix e x"
  shows "\<exists>i < length (Split x CHR ''.''). Join (drop i (Split x CHR ''.'')) CHR ''.'' = e"
proof (cases "x = e")
  case True
  have "0 < length (Split x CHR ''.'')" using Split_not_Nil by simp
  moreover have "Join (drop 0 (Split x CHR ''.'')) CHR ''.'' = e"
    using True by (simp add: Join_Split)
  ultimately show ?thesis by blast
next
  case False
  with assms obtain p where x: "x = p @ CHR ''.'' # e"
    using HasSuffixD by (auto simp: labelSuffix_def)
  let ?i = "length (Split p CHR ''.'')"
  have sp: "Split x CHR ''.'' = Split p CHR ''.'' @ Split e CHR ''.''"
    unfolding x by (rule Split_append)
  have "?i < length (Split x CHR ''.'')"
    using Split_not_Nil [of e] by (simp add: sp)
  moreover have "Join (drop ?i (Split x CHR ''.'')) CHR ''.'' = e"
    by (simp add: sp Join_Split)
  ultimately show ?thesis by blast
qed

lemma list_ex_upt: "list_ex P [0..<n] \<longleftrightarrow> (\<exists>i < n. P i)"
  by (auto simp: list_ex_iff)


lemma loaded_tables:
  assumes "fst (processIdentPolicy l pa policy) = None"
  shows "domainBlocklist (loadPolicy l pa policy) \<noteq> None"
    and "wildcardFqdnBlocklist (loadPolicy l pa policy) \<noteq> None"
    and "lookup (domainBlocklist (loadPolicy l pa policy)) k \<longleftrightarrow>
           k \<in> set (HighRiskBlockedNames policy) \<union> set (AdminBlockedNames policy)"
    and "lookup (fqdnBlocklist (loadPolicy l pa policy)) k \<longleftrightarrow>
           k \<in> set (ExactBlockedNames policy)"
    and "lookup (wildcardFqdnBlocklist (loadPolicy l pa policy)) k \<longleftrightarrow>
           k \<in> parentName ` set (ExactBlockedNames policy)"
    and "enabledIdentifiers (loadPolicy l pa policy) = enabledIdentifiers pa"
proof -
  from assms have "processIdentPolicy l pa policy = (None, loadPolicy l pa policy)"
    by (simp add: loadPolicy_def prod_eq_iff)
  from processIdentPolicy_tables [OF this]
  show "domainBlocklist (loadPolicy l pa policy) \<noteq> None"
    and "wildcardFqdnBlocklist (loadPolicy l pa policy) \<noteq> None"
    and "lookup (domainBlocklist (loadPolicy l pa policy)) k \<longleftrightarrow>
           k \<in> set (HighRiskBlockedNames policy) \<union> set (AdminBlockedNames policy)"
    and "lookup (fqdnBlocklist (loadPolicy l pa policy)) k \<longleftrightarrow>
           k \<in> set (ExactBlockedNames policy)"
    and "lookup (wildcardFqdnBlocklist (loadPolicy l pa policy)) k \<longleftrightarrow>
           k \<in> parentName ` set (ExactBlockedNames policy)"
    and "enabledIdentifiers (loadPolicy l pa policy) = enabledIdentifiers pa"
    by blast+
qed

lemma withoutHighRisk_fields:
  "HighRiskBlockedNames (withoutHighRisk e policy) = removeAll e (HighRiskBlockedNames policy)"
  "ExactBlockedNames (withoutHighRisk e policy) = ExactBlockedNames policy"
  "AdminBlockedNames (withoutHighRisk e policy) = AdminBlockedNames policy"
  "AdminBlockedPrefixes (withoutHighRisk e policy) = AdminBlockedPrefixes policy"
  by (simp_all add: withoutHighRisk_def)

lemma withoutExact_fields:
  "HighRiskBlockedNames (withoutExact v policy) = HighRiskBlockedNames policy"
  "ExactBlockedNames (withoutExact v policy) = removeAll v (ExactBlockedNames policy)"
  "AdminBlockedNames (withoutExact v policy) = AdminBlockedNames policy"
  "AdminBlockedPrefixes (withoutExact v policy) = AdminBlockedPrefixes policy"
  by (simp_all add: withoutExact_def)

lemma withoutHighRisk_loads:
  "fst (processIdentPolicy l pa policy) = None \<Longrightarrow>
   fst (processIdentPolicy l pa (withoutHighRisk e policy)) = None"
  using processIdentPolicy_error_iff [of l pa policy]
    processIdentPolicy_error_iff [of l pa "withoutHighRisk e policy"]
  unfolding withoutHighRisk_fields by blast

lemma withoutExact_loads:
  "fst (processIdentPolicy l pa policy) = None \<Longrightarrow>
   fst (processIdentPolicy l pa (withoutExact v policy)) = None"
  using processIdentPolicy_error_iff [of l pa policy]
    processIdentPolicy_error_iff [of l pa "withoutExact v policy"]
  unfolding withoutExact_fields by auto

text \<open>
  Claim C6. After a policy whose \<open>HighRiskBlockedNames\<close> contains \<open>e\<close> is loaded,
  \<open>WillingToIssue\<close> rejects every DNS identifier of which \<open>e\<close> is a label-wise suffix
  (\<open>e\<close> itself, and every name ending in a dot and \<open>e\<close>, wildcards included), and as
  forbidden by policy if the identifier is well-formed and DNS identifiers are enabled. A
  name of which \<open>e\<close> is no label-wise suffix gets the answer it would get from the policy
  without that entry.
\<close>

theorem HighRiskBlockedNames_blocks_label_suffixes:
  assumes load: "fst (processIdentPolicy l pa policy) = None"
    and e: "e \<in> set (HighRiskBlockedNames policy)"
  shows "(\<forall>x. labelSuffix e x \<longrightarrow>
            WillingToIssue l (loadPolicy l pa policy) [dnsIdent x] \<noteq> None \<and>
            (WellFormedIdentifiers l [dnsIdent x] = None \<and>
             IdentifierTypeEnabled (loadPolicy l pa policy) TypeDNS \<longrightarrow>
               WillingToIssue l (loadPolicy l pa policy) [dnsIdent x] =
                 Some (policyForbidden x))) \<and>
         fst (processIdentPolicy l pa (withoutHighRisk e policy)) = None \<and>
         (\<forall>x. \<not> labelSuffix e x \<longrightarrow>
            WillingToIssue l (loadPolicy l pa policy) [dnsIdent x] =
            WillingToIssue l (loadPolicy l pa (withoutHighRisk e policy)) [dnsIdent x])"
proof (intro conjI allI impI)
  fix x assume suf: "labelSuffix e x"
  let ?pa = "loadPolicy l pa policy"
  from labelSuffix_in_Split [OF suf] obtain i where
    i: "i < length (Split x CHR ''.'')" "Join (drop i (Split x CHR ''.'')) CHR ''.'' = e"
    by blast
  have "lookup (domainBlocklist ?pa) e"
    using e by (simp add: loaded_tables(3) [OF load])
  with i have "blockedDNS ?pa x"
    unfolding blockedDNS_def list_ex_upt by blast
  from blocked_rejected [OF loaded_tables(1) [OF load] loaded_tables(2) [OF load] this, of l]
  show "WillingToIssue l ?pa [dnsIdent x] \<noteq> None"
    and "WellFormedIdentifiers l [dnsIdent x] = None \<and> IdentifierTypeEnabled ?pa TypeDNS \<Longrightarrow>
         WillingToIssue l ?pa [dnsIdent x] = Some (policyForbidden x)"
    by blast+
next
  show "fst (processIdentPolicy l pa (withoutHighRisk e policy)) = None"
    using load by (rule withoutHighRisk_loads)
next
  fix x assume nsuf: "\<not> labelSuffix e x"
  let ?pa = "loadPolicy l pa policy"
  let ?pb = "loadPolicy l pa (withoutHighRisk e policy)"
  note load' = withoutHighRisk_loads [OF load, of e]
  have dom: "lookup (domainBlocklist ?pa) k = lookup (domainBlocklist ?pb) k" if "k \<noteq> e" for k
    using that
    by (auto simp: loaded_tables(3) [OF load] loaded_tables(3) [OF load'] withoutHighRisk_fields)
  have fq: "lookup (fqdnBlocklist ?pa) k = lookup (fqdnBlocklist ?pb) k" for k
    by (simp add: loaded_tables(4) [OF load] loaded_tables(4) [OF load'] withoutHighRisk_fields)
  have wc: "lookup (wildcardFqdnBlocklist ?pa) k = lookup (wildcardFqdnBlocklist ?pb) k" for k
    by (simp add: loaded_tables(5) [OF load] loaded_tables(5) [OF load'] withoutHighRisk_fields)
  have keys: "Join (drop i (Split x CHR ''.'')) CHR ''.'' \<noteq> e" if "i < length (Split x CHR ''.'')" for i
    using labelSuffix_of_Split [OF that] nsuf by auto
  have "blockedDNS ?pa x = blockedDNS ?pb x"
    unfolding blockedDNS_def list_ex_upt fq wc using dom keys by metis
  moreover have "enabledIdentifiers ?pa = enabledIdentifiers ?pb"
    by (simp add: loaded_tables(6) [OF load] loaded_tables(6) [OF load'])
  ultimately show "WillingToIssue l ?pa [dnsIdent x] = WillingToIssue l ?pb [dnsIdent x]"
    using same_blocking_same_answer
      [OF loaded_tables(1) [OF load] loaded_tables(2) [OF load]
          loaded_tables(1) [OF load'] loaded_tables(2) [OF load']]
    by blast
qed


lemma name_parts: "CHR ''.'' \<in> set v \<Longrightarrow> v = firstLabel v @ CHR ''.'' # parentName v"
proof -
  assume dot: "CHR ''.'' \<in> set v"
  let ?d = "dropWhile (\<lambda>c. c \<noteq> CHR ''.'') v"
  from dot have ne: "?d \<noteq> []" by (simp add: dropWhile_eq_Nil_conv) 
  then have "hd ?d = CHR ''.''" using hd_dropWhile [of "\<lambda>c. c \<noteq> CHR ''.''" v] by simp
  with ne have "?d = CHR ''.'' # tl ?d" by (cases ?d) auto
  then show ?thesis
    unfolding firstLabel_def parentName_def
    by (metis takeWhile_dropWhile_id)
qed

lemma unaffected_by_exact:
  assumes v: "v = fl @ CHR ''.'' # par"
    and x: "x = par \<or> (\<exists>z. x = z @ CHR ''.'' # v) \<or>
            (\<exists>d. d \<noteq> fl \<and> d \<noteq> ''*'' \<and> x = d @ CHR ''.'' # par)"
  shows "x \<noteq> v \<and> (HasPrefix x ''*.'' \<longrightarrow> drop 2 x \<noteq> par)"
proof -
  consider (parent) "x = par" | (child) z where "x = z @ CHR ''.'' # v"
    | (sibling) d where "d \<noteq> fl" "d \<noteq> ''*''" "x = d @ CHR ''.'' # par"
    using x by blast
  then show ?thesis
  proof cases
    case parent
    have "length x < length v" by (simp add: v parent)
    then have "x \<noteq> v" by auto
    moreover have "drop 2 x \<noteq> par" if "HasPrefix x ''*.''"
    proof -
      from that have "2 \<le> length x" by (simp add: HasPrefix_def)
      then have "length (drop 2 x) < length par" by (simp add: parent)
      then show ?thesis by auto
    qed
    ultimately show ?thesis by blast
  next
    case child
    have "length v < length x" by (simp add: child)
    then have "x \<noteq> v" by auto
    moreover have "drop 2 x \<noteq> par" if p: "HasPrefix x ''*.''"
    proof
      assume eq: "drop 2 x = par"
      from p have "2 \<le> length x" by (simp add: HasPrefix_def)
      then have "length (drop 2 x) = length z + length fl + length par"
        by (simp add: child v)
      with eq have "z = []" by simp
      with p child show False by (simp add: HasPrefix_def)
    qed
    ultimately show ?thesis by blast
  next
    case sibling
    have "x \<noteq> v" using sibling(1) by (simp add: sibling(3) v)
    moreover have "drop 2 x \<noteq> par" if p: "HasPrefix x ''*.''"
    proof
      assume eq: "drop 2 x = par"
      from p have "2 \<le> length x" by (simp add: HasPrefix_def)
      then have "length (drop 2 x) + 1 = length d + length par"
        by (simp add: sibling(3))
      with eq have "length d = 1" by simp
      then obtain c where d: "d = [c]" by (cases d) auto
      with p sibling(3) have "c = CHR ''*''" by (simp add: HasPrefix_def)
      with d sibling(2) show False by simp
    qed
    ultimately show ?thesis by blast
  qed
qed

lemma TrimPrefix_wildcard: "TrimPrefix (''*.'' @ x) ''*.'' = x"
  by (simp add: TrimPrefix_def HasPrefix_def)

lemma Count_wildcard: "0 < Count (''*.'' @ x) CHR ''*''"
  by (simp add: Count_def)

text \<open>
  Claim C5. After a policy whose \<open>ExactBlockedNames\<close> contains \<open>v\<close> is loaded (so \<open>v\<close>
  has a first label and a parent), \<open>WillingToIssue\<close> rejects \<open>v\<close> and the wildcard of its
  parent, as forbidden by policy if the identifier is well-formed and DNS identifiers are
  enabled. The parent, every name below \<open>v\<close>, and every sibling of \<open>v\<close> (another first
  label, not the wildcard) get the answer they would get from the policy without that
  entry.
\<close>

theorem ExactBlockedNames_blocks_name_and_wildcard:
  assumes load: "fst (processIdentPolicy l pa policy) = None"
    and v: "v \<in> set (ExactBlockedNames policy)"
  shows "v = firstLabel v @ CHR ''.'' # parentName v \<and>
         (\<forall>x. x = v \<or> x = ''*.'' @ parentName v \<longrightarrow>
            WillingToIssue l (loadPolicy l pa policy) [dnsIdent x] \<noteq> None \<and>
            (WellFormedIdentifiers l [dnsIdent x] = None \<and>
             IdentifierTypeEnabled (loadPolicy l pa policy) TypeDNS \<longrightarrow>
               WillingToIssue l (loadPolicy l pa policy) [dnsIdent x] =
                 Some (policyForbidden x))) \<and>
         fst (processIdentPolicy l pa (withoutExact v policy)) = None \<and>
         (\<forall>x. x = parentName v \<or> (\<exists>z. x = z @ CHR ''.'' # v) \<or>
              (\<exists>d. d \<noteq> firstLabel v \<and> d \<noteq> ''*'' \<and> x = d @ CHR ''.'' # parentName v) \<longrightarrow>
            WillingToIssue l (loadPolicy l pa policy) [dnsIdent x] =
            WillingToIssue l (loadPolicy l pa (withoutExact v policy)) [dnsIdent x])"
proof (intro conjI allI impI)
  let ?pa = "loadPolicy l pa policy"
  let ?pb = "loadPolicy l pa (withoutExact v policy)"
  from load have "processIdentPolicy l pa policy = (None, ?pa)"
    by (simp add: loadPolicy_def prod_eq_iff)
  from processIdentPolicy_tables [OF this] v have dot: "CHR ''.'' \<in> set v"
    by blast
  then show parts: "v = firstLabel v @ CHR ''.'' # parentName v"
    by (rule name_parts)
  show load': "fst (processIdentPolicy l pa (withoutExact v policy)) = None"
    using load by (rule withoutExact_loads)
  {
    fix x assume x: "x = v \<or> x = ''*.'' @ parentName v"
    have "blockedDNS ?pa x"
    proof (cases "x = v")
      case True
      then show ?thesis
        using v by (simp add: blockedDNS_def loaded_tables(4) [OF load])
    next
      case False
      with x have xw: "x = ''*.'' @ parentName v" by simp
      have "lookup (wildcardFqdnBlocklist ?pa) (parentName v)"
        using v by (simp add: loaded_tables(5) [OF load])
      then show ?thesis
        unfolding blockedDNS_def xw TrimPrefix_wildcard using Count_wildcard by blast
    qed
    from blocked_rejected [OF loaded_tables(1) [OF load] loaded_tables(2) [OF load] this, of l]
    show "WillingToIssue l ?pa [dnsIdent x] \<noteq> None"
      and "WellFormedIdentifiers l [dnsIdent x] = None \<and> IdentifierTypeEnabled ?pa TypeDNS \<Longrightarrow>
           WillingToIssue l ?pa [dnsIdent x] = Some (policyForbidden x)"
      by blast+
  }
  {
    fix x
    assume x: "x = parentName v \<or> (\<exists>z. x = z @ CHR ''.'' # v) \<or>
              (\<exists>d. d \<noteq> firstLabel v \<and> d \<noteq> ''*'' \<and> x = d @ CHR ''.'' # parentName v)"
    from unaffected_by_exact [OF parts x]
    have xv: "x \<noteq> v" and xp: "HasPrefix x ''*.'' \<Longrightarrow> drop 2 x \<noteq> parentName v"
      by blast+
    have dom: "lookup (domainBlocklist ?pa) k = lookup (domainBlocklist ?pb) k" for k
      by (simp add: loaded_tables(3) [OF load] loaded_tables(3) [OF load'] withoutExact_fields)
    have fq: "lookup (fqdnBlocklist ?pa) x = lookup (fqdnBlocklist ?pb) x"
      using xv
      by (simp add: loaded_tables(4) [OF load] loaded_tables(4) [OF load'] withoutExact_fields)
    have wc: "lookup (wildcardFqdnBlocklist ?pa) k = lookup (wildcardFqdnBlocklist ?pb) k"
      if "k \<noteq> parentName v" for k
      using that
      by (auto simp: loaded_tables(5) [OF load] loaded_tables(5) [OF load'] withoutExact_fields)
    have blocked: "blockedDNS ?pa x = blockedDNS ?pb x" if ok: "ValidDomain l x = None"
    proof (cases "0 < Count x CHR ''*''")
      case True
      then have "\<not> Count x CHR ''*'' \<le> 0" by simp
      from ValidDomain_wildcard [OF ok this] have pre: "HasPrefix x ''*.''" by blast
      then have "TrimPrefix x ''*.'' = drop 2 x"
        by (simp add: TrimPrefix_def numeral_2_eq_2)
      with xp [OF pre] have "TrimPrefix x ''*.'' \<noteq> parentName v" by simp
      from wc [OF this] show ?thesis
        unfolding blockedDNS_def dom fq by simp
    next
      case False
      then show ?thesis
        unfolding blockedDNS_def dom fq by simp
    qed
    have en: "enabledIdentifiers ?pa = enabledIdentifiers ?pb"
      by (simp add: loaded_tables(6) [OF load] loaded_tables(6) [OF load'])
    show "WillingToIssue l ?pa [dnsIdent x] = WillingToIssue l ?pb [dnsIdent x]"
      by (rule same_blocking_same_answer
            [OF loaded_tables(1) [OF load] loaded_tables(2) [OF load]
                loaded_tables(1) [OF load'] loaded_tables(2) [OF load'] en])
         (rule blocked)
  }
qed

theorem ExactBlockedNames_blocks_name_and_wildcard_witness:
  "WillingToIssue sampleLib (loadPolicy sampleLib samplePA samplePolicy)
     [dnsIdent ''hi.example.com''] = Some (policyForbidden ''hi.example.com'') \<and>
   WillingToIssue sampleLib (loadPolicy sampleLib samplePA samplePolicy)
     [dnsIdent ''*.example.com''] = Some (policyForbidden ''*.example.com'') \<and>
   WillingToIssue sampleLib (loadPolicy sampleLib samplePA samplePolicy)
     [dnsIdent ''example.com''] = None \<and>
   WillingToIssue sampleLib (loadPolicy sampleLib samplePA samplePolicy)
     [dnsIdent ''z.hi.example.com''] = None \<and>
   WillingToIssue sampleLib (loadPolicy sampleLib samplePA samplePolicy)
     [dnsIdent ''lo.example.com''] = None"
proof -
  let ?pa = "loadPolicy sampleLib samplePA samplePolicy"
  let ?pb = "loadPolicy sampleLib samplePA (withoutExact ''hi.example.com'' samplePolicy)"
  have load: "fst (processIdentPolicy sampleLib samplePA samplePolicy) = None"
    by code_simp
  have v: "''hi.example.com'' \<in> set (ExactBlockedNames samplePolicy)"
    by code_simp
  have parts: "parentName ''hi.example.com'' = ''example.com''"
    "firstLabel ''hi.example.com'' = ''hi''"
    by code_simp+
  have wf: "WellFormedIdentifiers sampleLib [dnsIdent ''hi.example.com''] = None"
    "WellFormedIdentifiers sampleLib [dnsIdent ''*.example.com''] = None"
    "IdentifierTypeEnabled ?pa TypeDNS"
    by code_simp+
  have without: "WillingToIssue sampleLib ?pb [dnsIdent ''example.com''] = None"
    "WillingToIssue sampleLib ?pb [dnsIdent ''z.hi.example.com''] = None"
    "WillingToIssue sampleLib ?pb [dnsIdent ''lo.example.com''] = None"
    by code_simp+
  note T = ExactBlockedNames_blocks_name_and_wildcard [OF load v, unfolded parts]
  note blocked = T [THEN conjunct2, THEN conjunct1, rule_format]
  note same = T [THEN conjunct2, THEN conjunct2, THEN conjunct2, rule_format]
  have "WillingToIssue sampleLib ?pa [dnsIdent ''hi.example.com''] =
      Some (policyForbidden ''hi.example.com'')"
    using blocked [of "''hi.example.com''"] wf by simp
  moreover have "WillingToIssue sampleLib ?pa [dnsIdent ''*.example.com''] =
      Some (policyForbidden ''*.example.com'')"
    using blocked [of "''*.example.com''"] wf by simp
  moreover have "WillingToIssue sampleLib ?pa [dnsIdent ''example.com''] = None"
    using same [of "''example.com''"] without by simp
  moreover have "WillingToIssue sampleLib ?pa [dnsIdent ''z.hi.example.com''] = None"
  proof -
    have "\<exists>z. ''z.hi.example.com'' = z @ CHR ''.'' # ''hi.example.com''"
      by (rule exI [of _ "''z''"]) simp
    then show ?thesis using same [of "''z.hi.example.com''"] without by simp
  qed
  moreover have "WillingToIssue sampleLib ?pa [dnsIdent ''lo.example.com''] = None"
  proof -
    have "\<exists>d. d \<noteq> ''hi'' \<and> d \<noteq> ''*'' \<and> ''lo.example.com'' = d @ CHR ''.'' # ''example.com''"
      by (rule exI [of _ "''lo''"]) simp
    then show ?thesis using same [of "''lo.example.com''"] without by simp
  qed
  ultimately show ?thesis by simp
qed


theorem HighRiskBlockedNames_blocks_label_suffixes_witness:
  "WillingToIssue sampleLib (loadPolicy sampleLib samplePA samplePolicy)
     [dnsIdent ''a.bad.com''] = Some (policyForbidden ''a.bad.com'') \<and>
   WillingToIssue sampleLib (loadPolicy sampleLib samplePA samplePolicy)
     [dnsIdent ''bad.com''] = Some (policyForbidden ''bad.com'') \<and>
   WillingToIssue sampleLib (loadPolicy sampleLib samplePA samplePolicy)
     [dnsIdent ''*.a.bad.com''] = Some (policyForbidden ''*.a.bad.com'') \<and>
   WillingToIssue sampleLib (loadPolicy sampleLib samplePA samplePolicy)
     [dnsIdent ''notbad.com''] = None"
proof -
  let ?pa = "loadPolicy sampleLib samplePA samplePolicy"
  let ?pb = "loadPolicy sampleLib samplePA (withoutHighRisk ''bad.com'' samplePolicy)"
  have load: "fst (processIdentPolicy sampleLib samplePA samplePolicy) = None"
    by code_simp
  have e: "''bad.com'' \<in> set (HighRiskBlockedNames samplePolicy)"
    by code_simp
  have suf: "labelSuffix ''bad.com'' ''a.bad.com''" "labelSuffix ''bad.com'' ''bad.com''"
    "labelSuffix ''bad.com'' ''*.a.bad.com''" "\<not> labelSuffix ''bad.com'' ''notbad.com''"
    by code_simp+
  have wf: "WellFormedIdentifiers sampleLib [dnsIdent ''a.bad.com''] = None"
    "WellFormedIdentifiers sampleLib [dnsIdent ''bad.com''] = None"
    "WellFormedIdentifiers sampleLib [dnsIdent ''*.a.bad.com''] = None"
    "IdentifierTypeEnabled ?pa TypeDNS"
    by code_simp+
  have without: "WillingToIssue sampleLib ?pb [dnsIdent ''notbad.com''] = None"
    by code_simp
  note T = HighRiskBlockedNames_blocks_label_suffixes [OF load e]
  note blocked = T [THEN conjunct1, rule_format]
  note same = T [THEN conjunct2, THEN conjunct2, rule_format]
  have "WillingToIssue sampleLib ?pa [dnsIdent ''a.bad.com''] =
      Some (policyForbidden ''a.bad.com'')"
    using blocked [OF suf(1)] wf by simp
  moreover have "WillingToIssue sampleLib ?pa [dnsIdent ''bad.com''] =
      Some (policyForbidden ''bad.com'')"
    using blocked [OF suf(2)] wf by simp
  moreover have "WillingToIssue sampleLib ?pa [dnsIdent ''*.a.bad.com''] =
      Some (policyForbidden ''*.a.bad.com'')"
    using blocked [OF suf(3)] wf by simp
  moreover have "WillingToIssue sampleLib ?pa [dnsIdent ''notbad.com''] = None"
    using same [OF suf(4)] without by simp
  ultimately show ?thesis by simp
qed

section \<open>Properties of the conversion of authorization rows\<close>

lemma populateAttemptedFields_result:
  assumes "populateAttemptedFields sl am ch = Inr ch'"
  shows "chType ch' = chType ch \<and> chToken ch' = chToken ch \<and> chValidated ch' = chValidated ch \<and>
         chStatus ch' = (if amValidationError am \<noteq> [] then StatusInvalid else StatusValid)"
  using assms
  by (auto simp: populateAttemptedFields_def split: if_splits sum.splits)

lemma challengeAtBit_unattempted:
  "amAttempted am = None \<Longrightarrow>
   challengeAtBit sl am pos = Inr (if bitSet am pos then [pendingChallenge sl am pos] else [])"
  by (simp add: challengeAtBit_def bitSet_def pendingChallenge_def Let_def)

lemma challengesOfBitmap_unattempted:
  "amAttempted am = None \<Longrightarrow>
   challengesOfBitmap sl am ps acc =
     Inr (acc @ map (pendingChallenge sl am) (filter (bitSet am) ps))"
  by (induction ps arbitrary: acc) (simp_all add: challengeAtBit_unattempted)

lemma challengeAtBit_attempted:
  assumes "amAttempted am = Some attempted" and "challengeAtBit sl am pos = Inr cs"
  shows "(\<forall>c \<in> set cs. attemptedChallenge sl am attempted c) \<and>
         length cs = (if attemptedBit am attempted pos then 1 else 0)"
proof (cases "attemptedBit am attempted pos")
  case False
  with assms show ?thesis
    by (auto simp: challengeAtBit_def attemptedBit_def bitSet_def Let_def split: if_splits)
next
  case True
  with assms obtain ch' where
    p: "populateAttemptedFields sl am (pendingChallenge sl am pos) = Inr ch'"
    and cs: "cs = [ch'\<lparr>chValidated := amAttemptedAt am\<rparr>]"
    by (auto simp: challengeAtBit_def attemptedBit_def bitSet_def pendingChallenge_def Let_def
        split: sum.splits)
  from populateAttemptedFields_result [OF p] True show ?thesis
    by (simp add: cs attemptedChallenge_def pendingChallenge_def attemptedBit_def)
qed

lemma challengesOfBitmap_attempted:
  assumes "amAttempted am = Some attempted"
  shows "challengesOfBitmap sl am ps acc = Inr r \<Longrightarrow>
     \<exists>cs. r = acc @ cs \<and> (\<forall>c \<in> set cs. attemptedChallenge sl am attempted c) \<and>
          length cs = length (filter (attemptedBit am attempted) ps)"
proof (induction ps arbitrary: acc)
  case Nil
  then show ?case by simp
next
  case (Cons pos ps)
  from Cons.prems obtain a where a: "challengeAtBit sl am pos = Inr a"
    and r: "challengesOfBitmap sl am ps (acc @ a) = Inr r"
    by (auto split: sum.splits)
  from Cons.IH [OF r] obtain cs where cs: "r = (acc @ a) @ cs"
    "\<forall>c \<in> set cs. attemptedChallenge sl am attempted c"
    "length cs = length (filter (attemptedBit am attempted) ps)"
    by blast
  from challengeAtBit_attempted [OF assms a]
  have "\<forall>c \<in> set (a @ cs). attemptedChallenge sl am attempted c"
    and "length (a @ cs) = length (filter (attemptedBit am attempted) (pos # ps))"
    using cs by auto
  with cs(1) show ?case by (metis append.assoc)
qed

lemma uintToChallType_inj:
  "attempted \<in> {0, 1, 2, 3} \<Longrightarrow> pos < 8 \<Longrightarrow>
   uintToChallType (of_nat pos) = uintToChallType attempted \<longleftrightarrow> pos = unat attempted"
proof -
  assume a: "attempted \<in> {0, 1, 2, 3}" and p: "pos < 8"
  from p have "pos \<in> {0, 1, 2, 3, 4, 5, 6, 7}" by auto
  with a show ?thesis
    by (auto simp: uintToChallType_def)
qed


lemma length_filter_eq_upt:
  "length (filter (\<lambda>p. p = k \<and> Q) [0..<n]) = (if k < n \<and> Q then 1 else 0)"
  by (induction n) auto

lemma attempted_positions:
  assumes "attempted \<in> {0, 1, 2, 3}"
  shows "length (filter (attemptedBit am attempted) [0..<8]) =
         (if bitSet am (unat attempted) then 1 else 0)"
proof -
  have "filter (attemptedBit am attempted) [0..<8] =
        filter (\<lambda>p. p = unat attempted \<and> bitSet am (unat attempted)) [0..<8]"
    by (rule filter_cong) (auto simp: attemptedBit_def uintToChallType_inj [OF assms])
  moreover have "unat attempted < 8"
    using assms by auto
  ultimately show ?thesis
    by (simp only: length_filter_eq_upt) simp
qed

text \<open>
  Claim C8. For a row with no attempted challenge (and a known identifier type),
  \<open>modelToAuthzPB\<close> returns one pending challenge for each bit set in the challenge
  bitmap, in the order of the bits. Once \<open>attempted\<close> is set, every challenge of the
  returned authorization is the attempted one: it has the attempted type, its status is
  invalid exactly when a validation error is stored and valid otherwise, and it carries the
  attempt time; for each of the four challenge types there is exactly one such challenge if
  its bit is set, and none otherwise.
\<close>

theorem modelToAuthzPB_challenges:
  "(amAttempted am = None \<and> uintToIdentifierType (amIdentifierType am) \<noteq> None \<longrightarrow>
      (\<exists>pb. modelToAuthzPB sl am = Inr pb \<and>
            azChallenges pb = map (pendingChallenge sl am) (filter (bitSet am) [0..<8]))) \<and>
   (\<forall>attempted pb. amAttempted am = Some attempted \<and> modelToAuthzPB sl am = Inr pb \<longrightarrow>
      (\<forall>c \<in> set (azChallenges pb). attemptedChallenge sl am attempted c) \<and>
      length (azChallenges pb) = length (filter (attemptedBit am attempted) [0..<8]) \<and>
      (attempted \<in> {0, 1, 2, 3} \<longrightarrow>
         length (azChallenges pb) = (if bitSet am (unat attempted) then 1 else 0)))"
proof (intro conjI allI impI)
  assume "amAttempted am = None \<and> uintToIdentifierType (amIdentifierType am) \<noteq> None"
  then obtain t where n: "amAttempted am = None"
    and t: "uintToIdentifierType (amIdentifierType am) = Some t"
    by auto
  show "\<exists>pb. modelToAuthzPB sl am = Inr pb \<and>
            azChallenges pb = map (pendingChallenge sl am) (filter (bitSet am) [0..<8])"
    by (simp add: modelToAuthzPB_def t challengesOfBitmap_unattempted [OF n] Let_def)
next
  fix attempted pb
  assume "amAttempted am = Some attempted \<and> modelToAuthzPB sl am = Inr pb"
  then have a: "amAttempted am = Some attempted" and pb: "modelToAuthzPB sl am = Inr pb"
    by simp_all
  from pb obtain r where r: "challengesOfBitmap sl am [0..<8] [] = Inr r"
    and ch: "azChallenges pb = r"
    by (auto simp: modelToAuthzPB_def Let_def split: option.splits sum.splits)
  from challengesOfBitmap_attempted [OF a r]
  show all: "\<forall>c \<in> set (azChallenges pb). attemptedChallenge sl am attempted c"
    and len: "length (azChallenges pb) = length (filter (attemptedBit am attempted) [0..<8])"
    unfolding ch by auto
  assume "attempted \<in> {0, 1, 2, 3}"
  from attempted_positions [OF this, of am] len
  show "length (azChallenges pb) = (if bitSet am (unat attempted) then 1 else 0)"
    by simp
qed


theorem modelToAuthzPB_challenges_witness:
  "(\<exists>pb. modelToAuthzPB sampleSalib (sampleRow None None []) = Inr pb \<and>
         map (\<lambda>c. (chType c, chStatus c)) (azChallenges pb) =
           [(''http-01'', ''pending''), (''dns-01'', ''pending''), (''tls-alpn-01'', ''pending'')]) \<and>
   (\<exists>pb. modelToAuthzPB sampleSalib (sampleRow (Some 1) (Some 500) ''{}'') = Inr pb \<and>
         length (azChallenges pb) = 1 \<and>
         list_all (\<lambda>c. chType c = ''dns-01'' \<and> chStatus c = ''invalid'' \<and>
                        chValidated c = Some 500) (azChallenges pb))"
proof (intro conjI)
  let ?am = "sampleRow None None []"
  have h: "amAttempted ?am = None \<and> uintToIdentifierType (amIdentifierType ?am) \<noteq> None"
    by code_simp
  from modelToAuthzPB_challenges [of ?am sampleSalib, THEN conjunct1, rule_format, OF h]
  obtain pb where pb: "modelToAuthzPB sampleSalib ?am = Inr pb"
    and ch: "azChallenges pb = map (pendingChallenge sampleSalib ?am) (filter (bitSet ?am) [0..<8])"
    by blast
  have "map (\<lambda>c. (chType c, chStatus c))
          (map (pendingChallenge sampleSalib ?am) (filter (bitSet ?am) [0..<8])) =
        [(''http-01'', ''pending''), (''dns-01'', ''pending''), (''tls-alpn-01'', ''pending'')]"
    by code_simp
  with pb ch show "\<exists>pb. modelToAuthzPB sampleSalib ?am = Inr pb \<and>
         map (\<lambda>c. (chType c, chStatus c)) (azChallenges pb) =
           [(''http-01'', ''pending''), (''dns-01'', ''pending''), (''tls-alpn-01'', ''pending'')]"
    by simp
next
  let ?am = "sampleRow (Some 1) (Some 500) ''{}''"
  let ?pb = "projr (modelToAuthzPB sampleSalib ?am)"
  have h: "amAttempted ?am = Some 1 \<and> modelToAuthzPB sampleSalib ?am = Inr ?pb"
    by code_simp
  have facts: "bitSet ?am (unat (1 :: 8 word))" "uintToChallType 1 = ''dns-01''"
    "amValidationError ?am \<noteq> []" "amAttemptedAt ?am = Some 500" "StatusInvalid = ''invalid''"
    by code_simp+
  note T = modelToAuthzPB_challenges [of ?am sampleSalib, THEN conjunct2, rule_format, OF h]
  from T have all: "\<forall>c \<in> set (azChallenges ?pb). attemptedChallenge sampleSalib ?am 1 c"
    and len: "length (azChallenges ?pb) = (if bitSet ?am (unat (1 :: 8 word)) then 1 else 0)"
    by simp_all
  from len facts(1) have "length (azChallenges ?pb) = 1" by simp
  moreover from all have "list_all (\<lambda>c. chType c = ''dns-01'' \<and> chStatus c = ''invalid'' \<and>
                        chValidated c = Some 500) (azChallenges ?pb)"
    unfolding list_all_iff attemptedChallenge_def using facts(2-5) by simp
  ultimately show "\<exists>pb. modelToAuthzPB sampleSalib ?am = Inr pb \<and>
         length (azChallenges pb) = 1 \<and>
         list_all (\<lambda>c. chType c = ''dns-01'' \<and> chStatus c = ''invalid'' \<and>
                        chValidated c = Some 500) (azChallenges pb)"
    using h by blast
qed

section \<open>Properties of the dump of the overrides\<close>

text \<open>
  What \<open>DumpOverrides\<close> does: the records after the header are the rows of the
  overrides, sorted by name, then count and burst descending, then the text of the period,
  then comment and id.
\<close>

lemma lessRow_rowKey: "lessRow a b \<longleftrightarrow> rowKey a < rowKey b"
  by (auto simp: lessRow_def rowKey_def less_prod_def less_eq_prod_def)

lemma set_insertBy: "set (insertBy lt x ys) = insert x (set ys)"
  by (induction ys) auto

lemma sorted_insertBy:
  "sorted (map k ys) \<Longrightarrow> sorted (map k (insertBy (\<lambda>a b. k a < k b) x ys))"
  by (induction ys) (auto simp: set_insertBy)

lemma mset_insertBy: "mset (insertBy lt x ys) = add_mset x (mset ys)"
  by (induction ys) auto

lemma sortSlice_sorted: "sorted (map k (sortSlice (\<lambda>a b. k a < k b) xs))"
  unfolding sortSlice_def by (induction xs) (simp_all add: sorted_insertBy)

lemma sortSlice_mset: "mset (sortSlice lt xs) = mset xs"
  unfolding sortSlice_def by (induction xs) (simp_all add: mset_insertBy)

lemma lessRow_eq: "lessRow = (\<lambda>a b. rowKey a < rowKey b)"
  by (intro ext) (rule lessRow_rowKey)

lemma DumpOverrides_sorted_by_text:
  assumes "DumpOverrides ns path overrides = Inr (header # records)"
  shows "\<exists>rows. overrideRows ns overrides [] = Inr rows \<and>
           records = map csvRecord (sortSlice lessRow rows) \<and>
           mset (sortSlice lessRow rows) = mset rows \<and>
           sorted (map rowKey (sortSlice lessRow rows))"
proof -
  from assms obtain rows where r: "overrideRows ns overrides [] = Inr rows"
    and rec: "records = map csvRecord (sortSlice lessRow rows)"
    by (auto simp: DumpOverrides_def split: sum.splits option.splits)
  have "sorted (map rowKey (sortSlice lessRow rows))"
    unfolding lessRow_eq by (rule sortSlice_sorted)
  with r rec show ?thesis by (simp add: sortSlice_mset)
qed

text \<open>
  Claim C3 fails on the code. With two overrides that differ in the period only, two hours
  and ten hours, \<open>DumpOverrides\<close> writes the row of ten hours first: it compares the
  periods as the texts \<open>10h0m0s\<close> and \<open>2h0m0s\<close>, although its comment says shorter
  durations first.
\<close>

theorem DumpOverrides_period_as_text:
  "2 * hour < 10 * hour \<and>
   DumpOverrides sampleNames ''overrides.csv''
     [(''5:a.example.com'', sampleOverride (2 * hour)),
      (''5:b.example.com'', sampleOverride (10 * hour))] =
   Inr [[''name'', ''id'', ''count'', ''burst'', ''period'', ''comment''],
        [''CertificatesPerDomain'', ''b.example.com'', ''10'', ''10'', ''10h0m0s'', []],
        [''CertificatesPerDomain'', ''a.example.com'', ''10'', ''10'', ''2h0m0s'', []]]"
  by code_simp

end
